theory Spec2Isabelle
  imports Complex_Main
begin

section \<open>The departure aggregation service (services/bodsService.js)\<close>

text \<open>
  A shallow embedding of the class \<open>BODSService\<close>. Conventions:
  \<^item> a \<open>Date\<close> is its time value, an integer number of milliseconds; \<open>new Date(x)\<close>
    for a number \<open>x\<close> truncates \<open>x\<close> towards zero (time values stay far inside the
    range in which a \<open>Date\<close> is valid);
  \<^item> numbers are real numbers and arithmetic on them is exact: the rounding of the
    products and sums of doubles in \<open>generateDepartureTimes\<close>,
    \<open>generateFallbackForRoute\<close> and \<open>calculateETA\<close> is left out, which at rare draws of
    \<open>Math.random()\<close> moves a result across a rounding boundary;
  \<^item> every reading of the clock and every result of \<open>Math.random()\<close> is taken from
    a \<open>world\<close>, indexed by the place of the reading in the computation, so that
    successive readings are independent of each other; the answers of the upstream
    provider are taken from the same world;
  \<^item> an object used as a table has the keys of its own and the members that every object
    inherits (\<open>constructor\<close>, \<open>toString\<close>, ...): the lookups in the stop registry and in
    the tables of frequencies and destinations find both; the timetable data are looked
    up at route numbers of the stop registry, which name no inherited member;
  \<^item> an \<open>async\<close> method is the function from the state before the call to its result
    and the state after it; output to the console is left out, except for the warnings
    of \<open>fetchTimetableData\<close>, which are returned with its result.
\<close>

subsection \<open>Data model\<close>

datatype status = onTime | delayed | early | estimated | live

datatype source = timetable | vehicle_tracking | fallback

datatype error = UnknownStop string | TypeError

record stopConfig =
  name :: string
  operators :: "string list"
  routes :: "string list"
  datasets :: "string list"

text \<open>An entry of the timetable data, \<open>{scheduled, estimated, status}\<close>.\<close>

record timeData =
  td_scheduled :: int
  td_estimated :: int
  td_status :: status

record vehicle =
  vehicleRef :: string
  lineRef :: string
  routeNumber :: "string option"
  destination :: string

text \<open>The value of \<open>table[key] || default\<close> for a table that is an object literal: a
  value of the table or the default (\<open>Plain\<close>), or, for a key that is not in the table and
  names an inherited member, that member, which is truthy: as a number it is NaN, and it
  is not a string.\<close>

datatype 'a tableValue = Plain 'a | Member

record service =
  routeNumber :: string
  destination :: "string tableValue"
  operator :: "string option"
  scheduledTime :: int
  estimatedTime :: "int option"
  status :: status
  source :: source

text \<open>A service object whose \<open>scheduledTime\<close> and \<open>estimatedTime\<close> are Invalid Dates; a
  \<open>service\<close> has valid dates.\<close>

record invalidService =
  i_routeNumber :: string
  i_destination :: "string tableValue"
  i_operator :: "string option"
  i_status :: status
  i_source :: source

datatype fallbackServices = Services "service list" | InvalidDates "invalidService list"

subsection \<open>The world: clock, random numbers, upstream provider\<close>

datatype 'a response = NetworkError | Response nat 'a

fun ok :: "'a response \<Rightarrow> bool" where
  "ok NetworkError = False"
| "ok (Response code body) = (200 \<le> code \<and> code \<le> 299)"

text \<open>The parts of a TransXChange document that the parser reads, as xml2js returns
  them: \<open>attrs = None\<close> is a \<open>Line\<close> without attributes (\<open>line.$\<close> is undefined).\<close>

record journeyPattern =
  TimingLinkRef :: "string option"

record txcLine =
  attrs :: "string option option"
  LineName :: "string option"

record txcService =
  Line :: "txcLine option"
  JourneyPattern :: "journeyPattern list option"

datatype txcDocument = Malformed | TransXChange "txcService list option"

record monitoredVehicleJourney =
  VehicleRef :: "string option"
  LineRef :: "string option"
  PublishedLineName :: "string option"
  DestinationName :: "string option"

datatype siriDocument = MalformedSiri | Siri "monitoredVehicleJourney option list option"

text \<open>The body of a response: \<open>None\<close> when reading it (\<open>json()\<close>, \<open>text()\<close>) fails.
  The metadata of a dataset is read for its \<open>url\<close> only.\<close>

type_synonym path = "nat list"

record world =
  random :: "path \<Rightarrow> real"
  clock :: "path \<Rightarrow> int"
  fetchMetadata :: "string \<Rightarrow> string option option response"
  fetchTimetable :: "string \<Rightarrow> txcDocument option response"
  fetchVehicles :: "siriDocument option response"

definition sub :: "nat \<Rightarrow> world \<Rightarrow> world" where
  "sub k W = W\<lparr>random := (\<lambda>p. random W (k # p)), clock := (\<lambda>p. clock W (k # p))\<rparr>"

definition newDate :: "real \<Rightarrow> int" where
  "newDate x = (if x < 0 then \<lceil>x\<rceil> else \<lfloor>x\<rfloor>)"

fun truthy :: "string option \<Rightarrow> bool" where
  "truthy None = False"
| "truthy (Some s) = (s \<noteq> [])"

fun enumerate0 :: "'a list \<Rightarrow> (nat \<times> 'a) list" where
  "enumerate0 xs = zip [0..<length xs] xs"

subsection \<open>The cache\<close>

text \<open>
  Modelled from the spec: the cache class (the package node-cache, created in server.js
  with \<open>stdTTL\<close> 300 for the services and 30 for the vehicles) is not part of the
  sources. An entry is a value with the time at which it expires; \<open>get\<close> never returns
  an entry past its expiry; \<open>set\<close> stores for the given time to live in seconds, by
  default \<open>stdTTL\<close> (the times to live in use are 300, 30 and 60 seconds). The hit and
  miss counters are left out.
\<close>

record 'v cacheEntry =
  val :: 'v
  expiresAt :: int

record 'v timedCache =
  entries :: "string \<rightharpoonup> 'v cacheEntry"
  stdTTL :: int

definition cache_get :: "int \<Rightarrow> 'v timedCache \<Rightarrow> string \<Rightarrow> 'v option" where
  "cache_get now c key =
     (case entries c key of
        None \<Rightarrow> None
      | Some e \<Rightarrow> if expiresAt e < now then None else Some (val e))"

definition cache_set :: "int \<Rightarrow> 'v timedCache \<Rightarrow> string \<Rightarrow> 'v \<Rightarrow> int option \<Rightarrow> 'v timedCache" where
  "cache_set now c key v ttl =
     c\<lparr>entries := (entries c)(key \<mapsto>
          \<lparr>val = v, expiresAt = now + (case ttl of None \<Rightarrow> stdTTL c | Some t \<Rightarrow> t) * 1000\<rparr>)\<rparr>"

record bodsService =
  cache :: "service list timedCache"
  vehicleCache :: "vehicle list timedCache"
  cacheHit :: bool

subsection \<open>The stop registry\<close>

definition stops :: "(string \<times> stopConfig) list" where
  "stops =
    [(''079073279A'', \<lparr>name = ''Cleveland Centre (Stand O)'', operators = [''Stagecoach''],
        routes = [''10'', ''12'', ''13'', ''14''], datasets = [''18509'']\<rparr>),
     (''079073279B'', \<lparr>name = ''Cleveland Centre (Stand P)'', operators = [''Arriva''],
        routes = [''17A'', ''17B''], datasets = [''15890'']\<rparr>),
     (''079073279C'', \<lparr>name = ''Cleveland Centre (Stand Q)'', operators = [''Arriva''],
        routes = [''29'', ''63''], datasets = [''15890'']\<rparr>)]"

text \<open>\<open>this.stops[stopId]\<close>: the registry is an object literal, so the lookup of a key
  that is not its own goes on to the members of \<open>Object.prototype\<close>, which are
  functions (an object, for \<open>__proto__\<close>): truthy values without \<open>routes\<close> or
  \<open>datasets\<close>.\<close>

datatype stopLookup = Undefined | Own stopConfig | Inherited

definition objectPrototypeMembers :: "string list" where
  "objectPrototypeMembers =
    [''constructor'', ''__defineGetter__'', ''__defineSetter__'', ''hasOwnProperty'',
     ''__lookupGetter__'', ''__lookupSetter__'', ''isPrototypeOf'', ''propertyIsEnumerable'',
     ''toString'', ''valueOf'', ''__proto__'', ''toLocaleString'']"

definition stopsLookup :: "string \<Rightarrow> stopLookup" where
  "stopsLookup stopId =
     (case map_of stops stopId of
        Some stopConfig \<Rightarrow> Own stopConfig
      | None \<Rightarrow> if stopId \<in> set objectPrototypeMembers then Inherited else Undefined)"

fun datasetsOf :: "stopLookup \<Rightarrow> string list option" where
  "datasetsOf (Own stopConfig) = Some (datasets stopConfig)"
| "datasetsOf _ = None"

subsection \<open>Schedule synthesis\<close>

definition determineStatus :: "int \<Rightarrow> int \<Rightarrow> status" where
  "determineStatus scheduled estimated' =
     (let diff = real_of_int (estimated' - scheduled) / 60000 in
      if \<bar>diff\<bar> < 2 then onTime
      else if diff > 5 then delayed
      else if diff < - 3 then early
      else estimated)"

definition frequencies :: "string \<rightharpoonup> int" where
  "frequencies = map_of
     [(''10'', 20), (''12'', 30), (''13'', 25), (''14'', 35),
      (''17A'', 15), (''17B'', 20), (''29'', 40), (''63'', 45)]"

definition estimateFrequency :: "string \<Rightarrow> int tableValue" where
  "estimateFrequency lineName =
     (case frequencies lineName of
        Some f \<Rightarrow> Plain (if f = 0 then 30 else f)
      | None \<Rightarrow> if lineName \<in> set objectPrototypeMembers then Member else Plain 30)"

text \<open>One turn of the loop of \<open>generateDepartureTimes\<close>. With a frequency that is not a
  number both dates are Invalid Dates, the comparison with \<open>startTime\<close> is false and
  nothing is pushed.\<close>

definition departure :: "world \<Rightarrow> int \<Rightarrow> int tableValue \<Rightarrow> nat \<Rightarrow> timeData option" where
  "departure W startTime frequency i =
     (case frequency of
        Member \<Rightarrow> None
      | Plain minutes \<Rightarrow>
          (let departureTime = startTime + minutes * int i * 60000;
               variation = (random W [i] - 1 / 2) * 4 * 60000;
               adjustedTime = newDate (real_of_int departureTime + variation)
           in if adjustedTime > startTime
              then Some \<lparr>td_scheduled = departureTime, td_estimated = adjustedTime,
                         td_status = determineStatus departureTime adjustedTime\<rparr>
              else None))"

definition generateDepartureTimes ::
  "world \<Rightarrow> int \<Rightarrow> int tableValue \<Rightarrow> nat \<Rightarrow> timeData list" where
  "generateDepartureTimes W startTime frequency count =
     List.map_filter (departure W startTime frequency) [0..<count]"

text \<open>\<open>extractServiceTimes\<close> reads the clock once. It is called for a service with a
  \<open>Line\<close>; without one, reading \<open>service.Lines.Line.LineName\<close> at the first pattern
  to be expanded throws, and the \<open>catch\<close> returns the times collected so far, none.
  A missing \<open>LineName\<close> is looked up as the key \<open>undefined\<close>.\<close>

definition extractServiceTimes :: "world \<Rightarrow> txcService \<Rightarrow> timeData list" where
  "extractServiceTimes W service =
     (let now = clock W [] in
      case JourneyPattern service of
        None \<Rightarrow> []
      | Some journeyPatterns \<Rightarrow>
          (case Line service of
             None \<Rightarrow> []
           | Some line \<Rightarrow>
               concat (map (\<lambda>(j, pattern).
                   if truthy (TimingLinkRef pattern)
                   then let baseFreq = estimateFrequency
                              (case LineName line of Some n \<Rightarrow> n | None \<Rightarrow> ''undefined'')
                        in generateDepartureTimes (sub j W) now baseFreq 8
                   else [])
                 (enumerate0 journeyPatterns))))"

text \<open>The loop of \<open>parseTransXChange\<close> over the services, from index \<open>k\<close>; \<open>None\<close> is
  the TypeError of \<open>line.$.id\<close> on a line without attributes. The assignment
  \<open>services[lineRef] = ...\<close> with the reference \<open>__proto__\<close> sets the prototype of
  \<open>services\<close> and adds no key.\<close>

fun parseServices :: "world \<Rightarrow> nat \<Rightarrow> txcService list \<Rightarrow> (string \<rightharpoonup> timeData list)
    \<Rightarrow> (string \<rightharpoonup> timeData list) option" where
  "parseServices W k [] services = Some services"
| "parseServices W k (service # rest) services =
     (case Line service of
        None \<Rightarrow> parseServices W (Suc k) rest services
      | Some line \<Rightarrow>
          (case attrs line of
             None \<Rightarrow> None
           | Some id' \<Rightarrow>
               (let lineRef = (if truthy id' then id' else LineName line) in
                case lineRef of
                  None \<Rightarrow> parseServices W (Suc k) rest services
                | Some ref \<Rightarrow>
                    if ref = [] \<or> ref = ''__proto__''
                    then parseServices W (Suc k) rest services
                    else parseServices W (Suc k) rest
                           (services(ref \<mapsto> extractServiceTimes (sub k W) service)))))"

definition parseTransXChange :: "world \<Rightarrow> txcDocument \<Rightarrow> (string \<rightharpoonup> timeData list)" where
  "parseTransXChange W xmlData =
     (case xmlData of
        Malformed \<Rightarrow> Map.empty
      | TransXChange None \<Rightarrow> Map.empty
      | TransXChange (Some serviceArray) \<Rightarrow>
          (case parseServices W 0 serviceArray Map.empty of
             None \<Rightarrow> Map.empty
           | Some services \<Rightarrow> services))"

subsection \<open>Fetching the timetables\<close>

datatype failure = FetchRejected | DatasetApiReturned nat | BodyRejected

datatype warning = FailedToFetchDataset string failure

text \<open>One turn of the loop of \<open>fetchTimetableData\<close>: what is thrown inside the \<open>try\<close>
  is caught, and the \<open>catch\<close> writes a warning. The oracles are asked with the dataset
  id and with the \<open>url\<close> of the metadata (the query string with the key is left out).\<close>

definition fetchDataset ::
  "world \<Rightarrow> string \<Rightarrow> (string \<rightharpoonup> timeData list) \<times> warning list
    \<Rightarrow> (string \<rightharpoonup> timeData list) \<times> warning list" where
  "fetchDataset W datasetId acc =
     (let (allTimetables, warnings) = acc in
      case fetchMetadata W datasetId of
        NetworkError \<Rightarrow>
          (allTimetables, warnings @ [FailedToFetchDataset datasetId FetchRejected])
      | Response code body \<Rightarrow>
          if \<not> ok (Response code body)
          then (allTimetables, warnings @ [FailedToFetchDataset datasetId (DatasetApiReturned code)])
          else
            (case body of
               None \<Rightarrow> (allTimetables, warnings @ [FailedToFetchDataset datasetId BodyRejected])
             | Some metadata_url \<Rightarrow>
                 (case metadata_url of
                    None \<Rightarrow> (allTimetables, warnings)
                  | Some url \<Rightarrow>
                      if url = [] then (allTimetables, warnings)
                      else
                        (case fetchTimetable W url of
                           NetworkError \<Rightarrow>
                             (allTimetables,
                              warnings @ [FailedToFetchDataset datasetId FetchRejected])
                         | Response code' body' \<Rightarrow>
                             if ok (Response code' body')
                             then
                               (case body' of
                                  None \<Rightarrow>
                                    (allTimetables,
                                     warnings @ [FailedToFetchDataset datasetId BodyRejected])
                                | Some xmlData \<Rightarrow>
                                    (allTimetables ++ parseTransXChange W xmlData, warnings))
                             else (allTimetables, warnings)))))"

text \<open>\<open>datasetIds = None\<close> is \<open>undefined\<close>, which \<open>for ... of\<close> cannot iterate.\<close>

definition fetchTimetableData ::
  "world \<Rightarrow> string list option \<Rightarrow> error + (string \<rightharpoonup> timeData list) \<times> warning list" where
  "fetchTimetableData W datasetIds =
     (case datasetIds of
        None \<Rightarrow> Inl TypeError
      | Some ids \<Rightarrow>
          Inr (fold (\<lambda>(d, datasetId). fetchDataset (sub d W) datasetId)
                 (enumerate0 ids) (Map.empty, [])))"

subsection \<open>The live vehicle feed\<close>

definition orElse :: "string option \<Rightarrow> string \<Rightarrow> string" where
  "orElse x d = (case x of None \<Rightarrow> d | Some s \<Rightarrow> if s = [] then d else s)"

text \<open>The coordinates and the timestamp of an observation are left out: nothing reads
  them.\<close>

definition parseSIRIVM :: "siriDocument \<Rightarrow> vehicle list" where
  "parseSIRIVM xmlData =
     (case xmlData of
        MalformedSiri \<Rightarrow> []
      | Siri None \<Rightarrow> []
      | Siri (Some activities) \<Rightarrow>
          List.map_filter (map_option (\<lambda>journey.
              \<lparr>vehicleRef = orElse (VehicleRef journey) ''unknown'',
               lineRef = orElse (LineRef journey) ''unknown'',
               routeNumber = (if truthy (PublishedLineName journey)
                              then PublishedLineName journey else LineRef journey),
               destination = orElse (DestinationName journey) ''Unknown''\<rparr>))
            activities)"

definition getVehiclePositions :: "world \<Rightarrow> bodsService \<Rightarrow> vehicle list \<times> bodsService" where
  "getVehiclePositions W this =
     (let cacheKey = ''vehicle_positions'' in
      case cache_get (clock W [0]) (vehicleCache this) cacheKey of
        Some cached \<Rightarrow> (cached, this)
      | None \<Rightarrow>
          (case fetchVehicles W of
             NetworkError \<Rightarrow> ([], this)
           | Response code body \<Rightarrow>
               if ok (Response code body)
               then
                 (case body of
                    None \<Rightarrow> ([], this)
                  | Some xmlData \<Rightarrow>
                      (let vehicles = parseSIRIVM xmlData in
                       (vehicles,
                        this\<lparr>vehicleCache :=
                          cache_set (clock W [1]) (vehicleCache this) cacheKey vehicles None\<rparr>)))
               else ([], this)))"

subsection \<open>Fallback synthesis\<close>

definition destinations :: "string \<rightharpoonup> string" where
  "destinations = map_of
     [(''10'', ''Lingfield Park''), (''12'', ''Coulby Newham''), (''13'', ''Coulby Newham''),
      (''14'', ''Trimdon Avenue''), (''17A'', ''Stockton via Ingleby Barwick''),
      (''17B'', ''Stockton via Thornaby''), (''29'', ''Redcar''), (''63'', ''Redcar'')]"

definition getDestinationForRoute :: "string \<Rightarrow> string tableValue" where
  "getDestinationForRoute routeNumber' =
     (case destinations routeNumber' of
        Some d \<Rightarrow> Plain (if d = [] then ''City Centre'' else d)
      | None \<Rightarrow>
          if routeNumber' \<in> set objectPrototypeMembers then Member else Plain ''City Centre'')"

text \<open>One turn of the loop of \<open>generateFallbackForRoute\<close>, for a frequency that is a
  number.\<close>

definition fallbackService ::
  "world \<Rightarrow> int \<Rightarrow> string \<Rightarrow> string option \<Rightarrow> int \<Rightarrow> string tableValue \<Rightarrow> nat \<Rightarrow> service" where
  "fallbackService W now routeNumber' operator' frequency destination' i =
     (let baseTime = now + frequency * int i * 60000;
          variation = (random W [i] - 1 / 2) * 6 * 60000;
          scheduledTime' = baseTime;
          estimatedTime' = newDate (real_of_int baseTime + variation)
      in \<lparr>routeNumber = routeNumber',
          destination = destination',
          operator = operator',
          scheduledTime = scheduledTime',
          estimatedTime = Some estimatedTime',
          status = determineStatus scheduledTime' estimatedTime',
          source = fallback\<rparr>)"

text \<open>With a frequency that is not a number \<open>baseTime\<close> is NaN in every turn, from the
  first: both dates of each of the four services are Invalid Dates, and
  \<open>determineStatus\<close>, all of whose comparisons are false, gives \<open>estimated\<close>.\<close>

definition generateFallbackForRoute :: "world \<Rightarrow> string \<Rightarrow> string option \<Rightarrow> fallbackServices" where
  "generateFallbackForRoute W routeNumber' operator' =
     (let now = clock W [];
          frequency = estimateFrequency routeNumber';
          destination' = getDestinationForRoute routeNumber'
      in case frequency of
           Plain minutes \<Rightarrow>
             Services (map (fallbackService W now routeNumber' operator' minutes destination')
                         [0..<4])
         | Member \<Rightarrow>
             InvalidDates (map (\<lambda>i. \<lparr>i_routeNumber = routeNumber',
                                       i_destination = destination',
                                       i_operator = operator',
                                       i_status = estimated,
                                       i_source = fallback\<rparr>) [0..<4]))"

text \<open>
  The routes of a stop configuration are route numbers of the stop registry, none of which
  names an inherited member. For such a name the lookups find the member, the services
  have Invalid Dates, the comparison function of the sort returns NaN and the order of the
  sorted list is left to the engine: the model leaves the services of such a route
  unspecified.
\<close>

definition validServices :: "fallbackServices \<Rightarrow> service list" where
  "validServices fallbackServices' =
     (case fallbackServices' of Services services \<Rightarrow> services | InvalidDates _ \<Rightarrow> undefined)"

text \<open>\<open>a.estimatedTime || a.scheduledTime\<close>, the key of both sorts and of the scan for the
  next bus. \<open>Array.prototype.sort\<close> is stable, as is \<open>sort_key\<close>.\<close>

definition serviceTime :: "service \<Rightarrow> int" where
  "serviceTime s = (case estimatedTime s of Some e \<Rightarrow> e | None \<Rightarrow> scheduledTime s)"

text \<open>\<open>stopConfig.operators[0]\<close> is undefined for an empty list.\<close>

definition firstOperator :: "stopConfig \<Rightarrow> string option" where
  "firstOperator stopConfig = (case operators stopConfig of [] \<Rightarrow> None | x # _ \<Rightarrow> Some x)"

definition getFallbackDataForStop :: "world \<Rightarrow> string \<Rightarrow> error + service list" where
  "getFallbackDataForStop W stopId =
     (case stopsLookup stopId of
        Undefined \<Rightarrow> Inr []
      | Inherited \<Rightarrow> Inl TypeError
      | Own stopConfig \<Rightarrow>
          (let allServices = concat (map (\<lambda>(r, routeNumber').
                 validServices
                   (generateFallbackForRoute (sub r W) routeNumber' (firstOperator stopConfig)))
                 (enumerate0 (routes stopConfig)))
           in Inr (take 6 (sort_key serviceTime allServices))))"

subsection \<open>Live enhancement\<close>

definition calculateETA :: "world \<Rightarrow> vehicle \<Rightarrow> int" where
  "calculateETA W vehicle =
     (let distance = random W [0] * 3;
          averageSpeed = 25
      in max 1 (round ((distance / averageSpeed) * 60)))"

definition matches :: "service \<Rightarrow> vehicle \<Rightarrow> bool" where
  "matches service v \<longleftrightarrow>
     vehicle.routeNumber v = Some (routeNumber service) \<or> lineRef v = routeNumber service"

definition enhanceService :: "world \<Rightarrow> vehicle list \<Rightarrow> service \<Rightarrow> service" where
  "enhanceService W vehicles service =
     (case filter (matches service) vehicles of
        [] \<Rightarrow> service
      | vehicle # _ \<Rightarrow>
          (let estimatedMinutes = calculateETA W vehicle in
           if estimatedMinutes > 0
           then service\<lparr>estimatedTime := Some (clock W [0] + estimatedMinutes * 60000),
                        status := live, source := vehicle_tracking\<rparr>
           else service))"

text \<open>The services are objects changed in place; the model returns the changed list.\<close>

definition enhanceWithVehicleData :: "world \<Rightarrow> service list \<Rightarrow> vehicle list \<Rightarrow> service list" where
  "enhanceWithVehicleData W services vehicles =
     map (\<lambda>(k, service). enhanceService (sub k W) vehicles service) (enumerate0 services)"

subsection \<open>The services of a stop\<close>

text \<open>The services of one route in \<open>processBusServices\<close>. For a route that names an
  inherited member the lookup in the timetable data finds the member as well; see
  \<open>validServices\<close>.\<close>

definition routeServices ::
  "world \<Rightarrow> stopConfig \<Rightarrow> (string \<rightharpoonup> timeData list) \<Rightarrow> string \<Rightarrow> service list" where
  "routeServices W stopConfig timetableData routeNumber' =
     (if routeNumber' \<in> set objectPrototypeMembers then undefined
      else
        case timetableData routeNumber' of
          None \<Rightarrow>
            validServices (generateFallbackForRoute W routeNumber' (firstOperator stopConfig))
        | Some routeTimetable \<Rightarrow>
            if length routeTimetable > 0
            then map (\<lambda>timeData.
                   \<lparr>routeNumber = routeNumber',
                    destination = getDestinationForRoute routeNumber',
                    operator = firstOperator stopConfig,
                    scheduledTime = td_scheduled timeData,
                    estimatedTime = Some (td_estimated timeData),
                    status = td_status timeData,
                    source = timetable\<rparr>) routeTimetable
            else validServices
                   (generateFallbackForRoute W routeNumber' (firstOperator stopConfig)))"

definition processBusServices ::
  "world \<Rightarrow> stopConfig \<Rightarrow> (string \<rightharpoonup> timeData list) \<Rightarrow> vehicle list \<Rightarrow> service list" where
  "processBusServices W stopConfig timetableData vehicles =
     (let services = concat (map (\<lambda>(r, routeNumber').
              routeServices (sub r (sub 0 W)) stopConfig timetableData routeNumber')
              (enumerate0 (routes stopConfig)));
          enhanced = enhanceWithVehicleData (sub 1 W) services vehicles
      in take 8 (sort_key serviceTime enhanced))"

text \<open>The \<open>catch\<close> of \<open>getBusTimesForStop\<close>; what \<open>getFallbackDataForStop\<close> throws there
  leaves the method.\<close>

definition fallbackBranch ::
  "world \<Rightarrow> bodsService \<Rightarrow> string \<Rightarrow> (error + service list) \<times> bodsService" where
  "fallbackBranch W this stopId =
     (case getFallbackDataForStop (sub 5 W) stopId of
        Inl e \<Rightarrow> (Inl e, this)
      | Inr fallbackData \<Rightarrow>
          (Inr fallbackData,
           this\<lparr>cache := cache_set (clock W [6]) (cache this) (''stop_'' @ stopId)
                             fallbackData (Some 60)\<rparr>))"

definition getBusTimesForStop ::
  "world \<Rightarrow> bodsService \<Rightarrow> string \<Rightarrow> (error + service list) \<times> bodsService" where
  "getBusTimesForStop W this stopId =
     (let cacheKey = ''stop_'' @ stopId in
      case cache_get (clock W [0]) (cache this) cacheKey of
        Some cached \<Rightarrow> (Inr cached, this\<lparr>cacheHit := True\<rparr>)
      | None \<Rightarrow>
          (let this1 = this\<lparr>cacheHit := False\<rparr> in
           case stopsLookup stopId of
             Undefined \<Rightarrow> (Inl (UnknownStop stopId), this1)
           | Inherited \<Rightarrow>
               (case fetchTimetableData (sub 1 W) (datasetsOf Inherited) of
                  Inl e \<Rightarrow> fallbackBranch W this1 stopId
                | Inr r \<Rightarrow> (Inl TypeError, this1))
           | Own stopConfig \<Rightarrow>
               (case fetchTimetableData (sub 1 W) (datasetsOf (Own stopConfig)) of
                  Inl e \<Rightarrow> fallbackBranch W this1 stopId
                | Inr (timetableData, warnings) \<Rightarrow>
                    (let (vehicles, this2) = getVehiclePositions (sub 2 W) this1;
                         busServices =
                           processBusServices (sub 3 W) stopConfig timetableData vehicles;
                         this3 = this2\<lparr>cache :=
                           cache_set (clock W [4]) (cache this2) cacheKey busServices None\<rparr>
                     in (Inr busServices, this3)))))"

definition isCacheHit :: "bodsService \<Rightarrow> bool" where
  "isCacheHit this = cacheHit this"

subsection \<open>All stops, and the next bus\<close>

text \<open>The body of the function mapped over the stop ids by \<open>getAllClevelandCentreData\<close>.\<close>

definition stopData :: "world \<Rightarrow> bodsService \<Rightarrow> string \<Rightarrow> (error + service list) \<times> bodsService" where
  "stopData W this stopId =
     (case getBusTimesForStop (sub 0 W) this stopId of
        (Inr data, this') \<Rightarrow> (Inr data, this')
      | (Inl e, this') \<Rightarrow> (getFallbackDataForStop (sub 1 W) stopId, this'))"

text \<open>\<open>allData[stopId] = stopData\<close>: a new key goes after the keys already there.\<close>

fun assign :: "string \<Rightarrow> 'v \<Rightarrow> (string \<times> 'v) list \<Rightarrow> (string \<times> 'v) list" where
  "assign k v [] = [(k, v)]"
| "assign k v ((k', v') # kvs) = (if k = k' then (k, v) # kvs else (k', v') # assign k v kvs)"

text \<open>
  The calls for the stops are started in the order of the registry and run concurrently;
  each stores its result in \<open>allData\<close> when it completes. The model runs them one after
  the other in the order \<open>completion\<close> in which they complete, each in a world of its own.
  (The calls write the service cache under different keys; they share the cache of the
  vehicle feed and the flag \<open>cacheHit\<close>.) What the function mapped over the ids throws
  rejects the promise of \<open>Promise.all\<close>.
\<close>

fun collectStops :: "(string \<Rightarrow> world) \<Rightarrow> string list \<Rightarrow> (string \<times> service list) list
    \<Rightarrow> bodsService \<Rightarrow> error + (string \<times> service list) list \<times> bodsService" where
  "collectStops Ws [] allData this = Inr (allData, this)"
| "collectStops Ws (stopId # rest) allData this =
     (case stopData (Ws stopId) this stopId of
        (Inl e, this') \<Rightarrow> Inl e
      | (Inr data, this') \<Rightarrow> collectStops Ws rest (assign stopId data allData) this')"

definition getAllClevelandCentreData :: "(string \<Rightarrow> world) \<Rightarrow> string list \<Rightarrow> bodsService
    \<Rightarrow> error + (string \<times> service list) list \<times> bodsService" where
  "getAllClevelandCentreData Ws completion this = collectStops Ws completion [] this"

text \<open>The body of the two nested \<open>forEach\<close> of \<open>getNextBusGlobally\<close>; the pair is
  \<open>(nextBus, earliestTime)\<close>.\<close>

definition nextStep :: "service \<Rightarrow> service option \<times> int option \<Rightarrow> service option \<times> int option" where
  "nextStep service acc =
     (let (nextBus, earliestTime) = acc;
          serviceTime' = serviceTime service
      in case earliestTime of
           None \<Rightarrow> (Some service, Some serviceTime')
         | Some t \<Rightarrow> if serviceTime' < t then (Some service, Some serviceTime')
                     else (nextBus, earliestTime))"

definition scanServices :: "(string \<times> service list) list \<Rightarrow> service option" where
  "scanServices allData = fst (fold nextStep (concat (map snd allData)) (None, None))"

definition getNextBusGlobally :: "(string \<Rightarrow> world) \<Rightarrow> string list \<Rightarrow> bodsService
    \<Rightarrow> error + service option \<times> bodsService" where
  "getNextBusGlobally Ws completion this =
     (case getAllClevelandCentreData Ws completion this of
        Inl e \<Rightarrow> Inl e
      | Inr (allData, this') \<Rightarrow> Inr (scanServices allData, this'))"

section \<open>Notions used in the statements\<close>

text \<open>The adjusted time of the \<open>i\<close>-th departure in \<open>generateDepartureTimes\<close>.\<close>

definition adjusted :: "world \<Rightarrow> int \<Rightarrow> int \<Rightarrow> nat \<Rightarrow> int" where
  "adjusted W startTime frequency i =
     newDate (real_of_int (startTime + frequency * int i * 60000)
              + (random W [i] - 1 / 2) * 4 * 60000)"

text \<open>The classification rule for the status of a departure, in the words of the
  specification: \<open>delta\<close> is the estimated time minus the scheduled time, in minutes.\<close>

definition classify :: "real \<Rightarrow> status" where
  "classify delta =
     (if \<bar>delta\<bar> < 2 then onTime
      else if delta > 5 then delayed
      else if delta < - 3 then early
      else estimated)"

text \<open>The status of a service agrees with its times and its source.\<close>

definition statusConsistent :: "service \<Rightarrow> bool" where
  "statusConsistent s =
     (if source s = vehicle_tracking then status s = live
      else (case estimatedTime s of
              None \<Rightarrow> False
            | Some e \<Rightarrow> status s = classify (real_of_int (e - scheduledTime s) / 60000)))"

text \<open>The entries of the timetable data carry the status computed from their times.\<close>

definition timeDataOk :: "timeData \<Rightarrow> bool" where
  "timeDataOk td = (td_status td = determineStatus (td_scheduled td) (td_estimated td))"

definition timetableOk :: "(string \<rightharpoonup> timeData list) \<Rightarrow> bool" where
  "timetableOk tt = (\<forall>k xs. tt k = Some xs \<longrightarrow> list_all timeDataOk xs)"

text \<open>Every list held in the service cache, expired or not, has the property \<open>P\<close>.\<close>

definition cached :: "(service list \<Rightarrow> bool) \<Rightarrow> bodsService \<Rightarrow> bool" where
  "cached P this = (\<forall>k e. entries (cache this) k = Some e \<longrightarrow> P (val e))"

text \<open>A list of services in ascending order of \<open>estimatedTime || scheduledTime\<close>, with at
  most \<open>n\<close> entries.\<close>

definition ranked :: "nat \<Rightarrow> service list \<Rightarrow> bool" where
  "ranked n services = (sorted (map serviceTime services) \<and> length services \<le> n)"

text \<open>The fetch of a dataset fails: the request for the metadata or, for metadata with a
  \<open>url\<close>, the request for the body is rejected, is answered with a status that is not a
  success, or has a body that cannot be read.\<close>

definition datasetFails :: "world \<Rightarrow> string \<Rightarrow> bool" where
  "datasetFails W datasetId =
     (case fetchMetadata W datasetId of
        NetworkError \<Rightarrow> True
      | Response code body \<Rightarrow>
          \<not> ok (Response code body) \<or>
          (case body of
             None \<Rightarrow> True
           | Some None \<Rightarrow> False
           | Some (Some url) \<Rightarrow>
               url \<noteq> [] \<and>
               (case fetchTimetable W url of
                  NetworkError \<Rightarrow> True
                | Response code' body' \<Rightarrow> \<not> ok (Response code' body') \<or> body' = None)))"

text \<open>No service of the list has an earlier time than \<open>s\<close>.\<close>

definition earliest :: "service list \<Rightarrow> service \<Rightarrow> bool" where
  "earliest services s = (\<forall>t \<in> set services. serviceTime s \<le> serviceTime t)"

section \<open>Example inputs\<close>

text \<open>A world in which every request for a dataset is answered with status 503, the vehicle
  feed reports one vehicle on line 17A, every reading of the clock gives the same instant
  and every random draw is 1/2 (no variation).\<close>

definition exWorld :: world where
  "exWorld = \<lparr>random = (\<lambda>p. 1 / 2), clock = (\<lambda>p. 1700000000000),
     fetchMetadata = (\<lambda>d. Response 503 None),
     fetchTimetable = (\<lambda>u. NetworkError),
     fetchVehicles = Response 200 (Some (Siri (Some
       [Some \<lparr>VehicleRef = Some ''V1'', LineRef = Some ''17A'',
              PublishedLineName = Some ''17A'', DestinationName = None\<rparr>])))\<rparr>"

definition exVehicle :: vehicle where
  "exVehicle = \<lparr>vehicleRef = ''V1'', lineRef = ''17A'', routeNumber = Some ''17A'',
     destination = ''Unknown''\<rparr>"

definition exService :: "string \<Rightarrow> source \<Rightarrow> service" where
  "exService r src = \<lparr>routeNumber = r, destination = Plain ''Stockton'', operator = Some ''Arriva'',
     scheduledTime = 1700000000000, estimatedTime = Some 1700000000000, status = onTime,
     source = src\<rparr>"


text \<open>A service of line 17A with one journey pattern that has a timing link.\<close>

definition exLine :: txcLine where
  "exLine = \<lparr>attrs = Some (Some ''17A''), LineName = Some ''17A''\<rparr>"

definition exTxcService :: txcService where
  "exTxcService = \<lparr>Line = Some exLine, JourneyPattern = Some [\<lparr>TimingLinkRef = Some ''TL1''\<rparr>]\<rparr>"

text \<open>A service of a line named \<open>constructor\<close>.\<close>

definition exConstructorLine :: txcLine where
  "exConstructorLine = \<lparr>attrs = Some (Some ''L1''), LineName = Some ''constructor''\<rparr>"

definition exConstructorService :: txcService where
  "exConstructorService =
     \<lparr>Line = Some exConstructorLine, JourneyPattern = Some [\<lparr>TimingLinkRef = Some ''TL1''\<rparr>]\<rparr>"

text \<open>A service object with empty caches, configured as in server.js; the configuration
  of stand P; the services that the example world yields for stand P.\<close>

definition exState :: bodsService where
  "exState = \<lparr>cache = \<lparr>entries = Map.empty, stdTTL = 300\<rparr>,
     vehicleCache = \<lparr>entries = Map.empty, stdTTL = 30\<rparr>, cacheHit = False\<rparr>"

definition exConfig :: stopConfig where
  "exConfig = \<lparr>name = ''Cleveland Centre (Stand P)'', operators = [''Arriva''],
        routes = [''17A'', ''17B''], datasets = [''15890'']\<rparr>"

definition exFallback :: "string \<Rightarrow> string \<Rightarrow> int \<Rightarrow> service" where
  "exFallback r d t = \<lparr>routeNumber = r, destination = Plain d, operator = Some ''Arriva'',
     scheduledTime = t, estimatedTime = Some t, status = onTime, source = fallback\<rparr>"

definition exTracked :: "int \<Rightarrow> service" where
  "exTracked t = \<lparr>routeNumber = ''17A'',
     destination = Plain ''Stockton via Ingleby Barwick'',
     operator = Some ''Arriva'', scheduledTime = t, estimatedTime = Some 1700000240000,
     status = live, source = vehicle_tracking\<rparr>"

definition exServices :: "service list" where
  "exServices =
     [exFallback ''17B'' ''Stockton via Thornaby'' 1700000000000,
      exTracked 1700000000000, exTracked 1700000900000,
      exTracked 1700001800000, exTracked 1700002700000,
      exFallback ''17B'' ''Stockton via Thornaby'' 1700001200000,
      exFallback ''17B'' ''Stockton via Thornaby'' 1700002400000,
      exFallback ''17B'' ''Stockton via Thornaby'' 1700003600000]"

text \<open>The service object after the call for stand P in the example world, and a world
  one hundred seconds later.\<close>

definition exStateAfter :: bodsService where
  "exStateAfter = exState\<lparr>cacheHit := False,
        vehicleCache := \<lparr>entries = [''vehicle_positions'' \<mapsto> \<lparr>val = [exVehicle], expiresAt = 1700000030000\<rparr>], stdTTL = 30\<rparr>,
        cache := \<lparr>entries = [''stop_079073279B'' \<mapsto> \<lparr>val = exServices, expiresAt = 1700000300000\<rparr>], stdTTL = 300\<rparr>\<rparr>"

definition exLater :: world where
  "exLater = exWorld\<lparr>clock := (\<lambda>p. 1700000100000)\<rparr>"

text \<open>A world in which the metadata of every dataset are served and every request for the
  body of a dataset is answered with status 503.\<close>

definition exBodyFails :: world where
  "exBodyFails = exWorld\<lparr>
     fetchMetadata := (\<lambda>d. Response 200 (Some (Some ''https://data.example/timetable.zip''))),
     fetchTimetable := (\<lambda>u. Response 503 None)\<rparr>"

text \<open>Stands O and Q, and the services that the example world yields for them;
  \<open>exStored\<close> is the service object after such a list has been cached at the instant
  of the example world. \<open>exAllData\<close> and \<open>exStateAll\<close> are the collected data and the
  service object after the calls for stands P, Q and O have completed in this order.\<close>

definition exStagecoach :: "string \<Rightarrow> string \<Rightarrow> int \<Rightarrow> service" where
  "exStagecoach r d t = (exFallback r d t)\<lparr>operator := Some ''Stagecoach''\<rparr>"

definition exConfigA :: stopConfig where
  "exConfigA = \<lparr>name = ''Cleveland Centre (Stand O)'', operators = [''Stagecoach''],
        routes = [''10'', ''12'', ''13'', ''14''], datasets = [''18509'']\<rparr>"

definition exConfigC :: stopConfig where
  "exConfigC = \<lparr>name = ''Cleveland Centre (Stand Q)'', operators = [''Arriva''],
        routes = [''29'', ''63''], datasets = [''15890'']\<rparr>"

definition exServicesA :: "service list" where
  "exServicesA =
     [exStagecoach ''10'' ''Lingfield Park'' 1700000000000,
      exStagecoach ''12'' ''Coulby Newham'' 1700000000000,
      exStagecoach ''13'' ''Coulby Newham'' 1700000000000,
      exStagecoach ''14'' ''Trimdon Avenue'' 1700000000000,
      exStagecoach ''10'' ''Lingfield Park'' 1700001200000,
      exStagecoach ''13'' ''Coulby Newham'' 1700001500000,
      exStagecoach ''12'' ''Coulby Newham'' 1700001800000,
      exStagecoach ''14'' ''Trimdon Avenue'' 1700002100000]"

definition exServicesC :: "service list" where
  "exServicesC =
     [exFallback ''29'' ''Redcar'' 1700000000000,
      exFallback ''63'' ''Redcar'' 1700000000000,
      exFallback ''29'' ''Redcar'' 1700002400000,
      exFallback ''63'' ''Redcar'' 1700002700000,
      exFallback ''29'' ''Redcar'' 1700004800000,
      exFallback ''63'' ''Redcar'' 1700005400000,
      exFallback ''29'' ''Redcar'' 1700007200000,
      exFallback ''63'' ''Redcar'' 1700008100000]"

definition exStored :: "string \<Rightarrow> service list \<Rightarrow> bodsService \<Rightarrow> bodsService" where
  "exStored stopId services this =
     this\<lparr>cache := cache_set 1700000000000 (cache this) (''stop_'' @ stopId) services None\<rparr>"

definition exAllData :: "(string \<times> service list) list" where
  "exAllData = [(''079073279B'', exServices), (''079073279C'', exServicesC),
     (''079073279A'', exServicesA)]"

definition exStateAll :: bodsService where
  "exStateAll = exStored ''079073279A'' exServicesA (exStored ''079073279C'' exServicesC exStateAfter)"

section \<open>Properties\<close>

subsection \<open>Dates and index lists\<close>

lemma upt_0_4: "[0..<4] = [0, 1, 2, 3::nat]"
  by code_simp

lemma upt_0_8: "[0..<8] = [0, 1, 2, 3, 4, 5, 6, 7::nat]"
  by code_simp

lemma newDate_of_int [simp]: "newDate (real_of_int n) = n"
  by (simp add: newDate_def)

lemma newDate_mono: "x \<le> y \<Longrightarrow> newDate x \<le> newDate y"
  unfolding newDate_def
  by (smt (verit) ceiling_mono floor_mono floor_le_ceiling ceiling_le_zero zero_le_floor
      of_int_0 order_trans less_eq_real_def)

lemma newDate_diff_numeral [simp]: "newDate (real_of_int n - numeral k) = n - numeral k"
  by (metis newDate_of_int of_int_diff of_int_numeral)

lemma newDate_add_numeral [simp]: "newDate (real_of_int n + numeral k) = n + numeral k"
  by (metis newDate_of_int of_int_add of_int_numeral)

subsection \<open>Fallback synthesis\<close>

lemma registered_routes:
  "map_of stops stopId = Some cfg \<Longrightarrow> r \<in> set (routes cfg)
   \<Longrightarrow> r \<notin> set objectPrototypeMembers"
  by (auto simp: stops_def objectPrototypeMembers_def split: if_splits)

lemma estimateFrequency_Plain:
  "r \<notin> set objectPrototypeMembers \<Longrightarrow> \<exists>f. estimateFrequency r = Plain f"
  by (simp add: estimateFrequency_def split: option.split)

lemma generateFallbackForRoute_Services:
  "estimateFrequency r = Plain f \<Longrightarrow>
   generateFallbackForRoute W r op =
     Services (map (fallbackService W (clock W []) r op f (getDestinationForRoute r)) [0..<4])"
  by (simp add: generateFallbackForRoute_def Let_def)

lemma validServices_fallback:
  assumes "r \<notin> set objectPrototypeMembers"
  shows "\<exists>f. validServices (generateFallbackForRoute W r op) =
     map (fallbackService W (clock W []) r op f (getDestinationForRoute r)) [0..<4]"
proof -
  from estimateFrequency_Plain [OF assms] obtain f where "estimateFrequency r = Plain f" ..
  then have "validServices (generateFallbackForRoute W r op) =
     map (fallbackService W (clock W []) r op f (getDestinationForRoute r)) [0..<4]"
    by (simp add: generateFallbackForRoute_Services validServices_def)
  then show ?thesis ..
qed

text \<open>
  C10. For every route number that does not name a member inherited from
  \<open>Object.prototype\<close> (every route number of the stop registry is one, by
  \<open>registered_routes\<close>) and every operator, \<open>generateFallbackForRoute\<close> returns exactly
  four services, one for each of the four successive departure times (none is
  discarded), all with source \<open>fallback\<close>; the first is scheduled at the generation time
  itself. The estimated time of a fallback service can lie strictly in the past when the
  list is produced: with the draw 0 of \<open>Math.random()\<close> the first service is estimated
  three minutes before the generation time.
\<close>

theorem generateFallbackForRoute_four:
  assumes "r \<notin> set objectPrototypeMembers"
  shows "\<exists>f services.
     estimateFrequency r = Plain f
   \<and> generateFallbackForRoute W r op = Services services
   \<and> length services = 4
   \<and> map scheduledTime services = map (\<lambda>i. clock W [] + f * int i * 60000) [0..<4]
   \<and> map source services = [fallback, fallback, fallback, fallback]
   \<and> scheduledTime (hd services) = clock W []
   \<and> (\<exists>W' services'. 0 \<le> random W' [0] \<and> random W' [0] < 1 \<and> clock W' [] = clock W []
          \<and> generateFallbackForRoute W' r op = Services services'
          \<and> estimatedTime (hd services') = Some (clock W [] - 180000))"
proof -
  from estimateFrequency_Plain [OF assms] obtain f where f: "estimateFrequency r = Plain f" ..
  let ?W' = "W\<lparr>random := \<lambda>p. 0\<rparr>"
  let ?services = "\<lambda>W. map (fallbackService W (clock W []) r op f (getDestinationForRoute r))
                         [0..<4]"
  have g: "generateFallbackForRoute W r op = Services (?services W)" for W
    using f by (rule generateFallbackForRoute_Services)
  have "estimatedTime (hd (?services ?W')) = Some (clock W [] - 180000)"
    by (simp add: fallbackService_def Let_def upt_0_4)
  then have past: "\<exists>W' services'. 0 \<le> random W' [0] \<and> random W' [0] < 1
          \<and> clock W' [] = clock W []
          \<and> generateFallbackForRoute W' r op = Services services'
          \<and> estimatedTime (hd services') = Some (clock W [] - 180000)"
    using g [of ?W'] by (intro exI [of _ ?W'] exI [of _ "?services ?W'"]) simp
  have "length (?services W) = 4
   \<and> map scheduledTime (?services W) = map (\<lambda>i. clock W [] + f * int i * 60000) [0..<4]
   \<and> map source (?services W) = [fallback, fallback, fallback, fallback]
   \<and> scheduledTime (hd (?services W)) = clock W []"
    by (simp add: fallbackService_def Let_def upt_0_4)
  with f g [of W] past show ?thesis
    by (intro exI [of _ f] exI [of _ "?services W"]) simp
qed

theorem generateFallbackForRoute_four_witness:
  "''17A'' \<notin> set objectPrototypeMembers
   \<and> (\<exists>services.
       generateFallbackForRoute exWorld ''17A'' (Some ''Arriva'') = Services services
     \<and> length services = 4
     \<and> map scheduledTime services
         = [1700000000000, 1700000900000, 1700001800000, 1700002700000]
     \<and> map source services = [fallback, fallback, fallback, fallback]
     \<and> scheduledTime (hd services) = 1700000000000)"
proof -
  have m: "''17A'' \<notin> set objectPrototypeMembers"
    by (simp add: objectPrototypeMembers_def)
  have f: "estimateFrequency ''17A'' = Plain 15"
    by (simp add: estimateFrequency_def frequencies_def)
  have c: "clock exWorld [] = 1700000000000"
    by (simp add: exWorld_def)
  from generateFallbackForRoute_four [OF m, of exWorld "Some ''Arriva''"] m show ?thesis
    unfolding f c by (auto simp: upt_0_4)
qed

text \<open>For the route number \<open>constructor\<close> the frequency and the destination are the inherited
  member: the four services have Invalid Dates, none is scheduled at the generation
  time.\<close>

theorem generateFallbackForRoute_constructor_counterexample:
  "estimateFrequency ''constructor'' = Member
   \<and> generateFallbackForRoute exWorld ''constructor'' (Some ''Arriva'') =
       InvalidDates (replicate 4
         \<lparr>i_routeNumber = ''constructor'', i_destination = Member,
          i_operator = Some ''Arriva'', i_status = estimated, i_source = fallback\<rparr>)"
  by (simp add: generateFallbackForRoute_def estimateFrequency_def frequencies_def
      getDestinationForRoute_def destinations_def objectPrototypeMembers_def Let_def upt_0_4
      numeral_eq_Suc)

subsection \<open>Live enhancement\<close>

lemma enumerate0_nth: "k < length xs \<Longrightarrow> enumerate0 xs ! k = (k, xs ! k)"
  by simp

lemma enhanceWithVehicleData_length:
  "length (enhanceWithVehicleData W services vehicles) = length services"
  by (simp add: enhanceWithVehicleData_def)

lemma enhanceWithVehicleData_nth:
  "k < length services \<Longrightarrow>
   enhanceWithVehicleData W services vehicles ! k = enhanceService (sub k W) vehicles (services ! k)"
  by (simp add: enhanceWithVehicleData_def)

lemma calculateETA_pos: "1 \<le> calculateETA W v"
  by (simp add: calculateETA_def)

lemma first_of_filter:
  "(case filter P xs of [] \<Rightarrow> a | v # _ \<Rightarrow> f v) = (case find P xs of None \<Rightarrow> a | Some v \<Rightarrow> f v)"
  by (induction xs) auto

lemma enhanceService_find:
  "enhanceService W vehicles s =
     (case find (matches s) vehicles of
        None \<Rightarrow> s
      | Some v \<Rightarrow> s\<lparr>estimatedTime := Some (clock W [0] + calculateETA W v * 60000),
                     status := live, source := vehicle_tracking\<rparr>)"
proof -
  have "\<And>v. 0 < calculateETA W v"
    using calculateETA_pos [of W] by (smt (verit))
  then show ?thesis
    unfolding enhanceService_def Let_def first_of_filter by (simp split: option.split)
qed

lemma enhanceService_source:
  "source s = vehicle_tracking \<Longrightarrow> source (enhanceService W vehicles s) = vehicle_tracking"
  by (simp add: enhanceService_find split: option.split)

text \<open>
  C6. For every list of services and every list of vehicle observations, the enhancement
  keeps the length and the order of the list and leaves every field of a service other
  than \<open>estimatedTime\<close>, \<open>status\<close> and \<open>source\<close> as it is. A service without a
  matching observation (on \<open>routeNumber\<close> or \<open>lineRef\<close>) is unchanged; a service with
  one gets status \<open>live\<close>, source \<open>vehicle_tracking\<close> and the estimated time of arrival
  computed for the first match, since the estimator always returns at least one minute.
  A service whose source is \<open>vehicle_tracking\<close> keeps that source.
\<close>

theorem enhanceWithVehicleData_frame:
  "length (enhanceWithVehicleData W services vehicles) = length services
   \<and> (\<forall>k < length services.
        enhanceWithVehicleData W services vehicles ! k =
          (case find (matches (services ! k)) vehicles of
             None \<Rightarrow> services ! k
           | Some v \<Rightarrow> (services ! k)
               \<lparr>estimatedTime := Some (clock (sub k W) [0] + calculateETA (sub k W) v * 60000),
                status := live, source := vehicle_tracking\<rparr>)
        \<and> (source (services ! k) = vehicle_tracking
             \<longrightarrow> source (enhanceWithVehicleData W services vehicles ! k) = vehicle_tracking))
   \<and> (\<forall>v. 1 \<le> calculateETA W v)"
  by (simp add: enhanceWithVehicleData_length enhanceWithVehicleData_nth calculateETA_pos
      enhanceService_source enhanceService_find [symmetric])

theorem enhanceWithVehicleData_frame_witness:
  "enhanceWithVehicleData exWorld [exService ''17A'' fallback, exService ''17B'' timetable] [exVehicle]
   = [(exService ''17A'' fallback)\<lparr>estimatedTime := Some 1700000240000, status := live,
        source := vehicle_tracking\<rparr>, exService ''17B'' timetable]"
proof -
  let ?ss = "[exService ''17A'' fallback, exService ''17B'' timetable]"
  have eta: "calculateETA (sub 0 exWorld) exVehicle = 4"
    by (simp add: calculateETA_def sub_def exWorld_def round_def)
  have f0: "matches (exService ''17A'' fallback) exVehicle"
    by (simp add: matches_def exVehicle_def exService_def)
  have f1: "\<not> matches (exService ''17B'' timetable) exVehicle"
    by (simp add: matches_def exVehicle_def exService_def)
  have c: "clock (sub 0 exWorld) [0] = 1700000000000"
    by (simp add: sub_def exWorld_def)
  note fr = enhanceWithVehicleData_frame [of exWorld ?ss "[exVehicle]"]
  from fr have len: "length (enhanceWithVehicleData exWorld ?ss [exVehicle]) = 2" by simp
  from fr have "0 < length ?ss \<longrightarrow> enhanceWithVehicleData exWorld ?ss [exVehicle] ! 0 =
          (case find (matches (?ss ! 0)) [exVehicle] of
             None \<Rightarrow> ?ss ! 0
           | Some v \<Rightarrow> (?ss ! 0)
               \<lparr>estimatedTime := Some (clock (sub 0 exWorld) [0] + calculateETA (sub 0 exWorld) v * 60000),
                status := live, source := vehicle_tracking\<rparr>)" by blast
  then have n0: "enhanceWithVehicleData exWorld ?ss [exVehicle] ! 0 = (exService ''17A'' fallback)\<lparr>estimatedTime := Some 1700000240000, status := live,
        source := vehicle_tracking\<rparr>"
    by (simp add: f0 eta c)
  from fr have "1 < length ?ss \<longrightarrow> enhanceWithVehicleData exWorld ?ss [exVehicle] ! 1 =
          (case find (matches (?ss ! 1)) [exVehicle] of
             None \<Rightarrow> ?ss ! 1
           | Some v \<Rightarrow> (?ss ! 1)
               \<lparr>estimatedTime := Some (clock (sub 1 exWorld) [0] + calculateETA (sub 1 exWorld) v * 60000),
                status := live, source := vehicle_tracking\<rparr>)" by blast
  then have n1: "enhanceWithVehicleData exWorld ?ss [exVehicle] ! 1 = exService ''17B'' timetable"
    by (simp add: f1)
  show ?thesis
    using len n0 n1 by (simp add: list_eq_iff_nth_eq nth_Cons' less_Suc_eq numeral_2_eq_2)
qed

subsection \<open>Worlds\<close>

lemma random_sub [simp]: "random (sub k W) p = random W (k # p)"
  by (simp add: sub_def)

lemma clock_sub [simp]: "clock (sub k W) p = clock W (k # p)"
  by (simp add: sub_def)

lemma fetch_sub [simp]:
  "fetchMetadata (sub k W) = fetchMetadata W"
  "fetchTimetable (sub k W) = fetchTimetable W"
  "fetchVehicles (sub k W) = fetchVehicles W"
  by (simp_all add: sub_def)

subsection \<open>Schedule synthesis\<close>

lemma departure_adjusted:
  "departure W startTime (Plain frequency) i =
     (if startTime < adjusted W startTime frequency i
      then Some \<lparr>td_scheduled = startTime + frequency * int i * 60000,
                 td_estimated = adjusted W startTime frequency i,
                 td_status = determineStatus (startTime + frequency * int i * 60000)
                               (adjusted W startTime frequency i)\<rparr>
      else None)"
  by (simp add: departure_def adjusted_def Let_def)

lemma map_filter_if:
  "List.map_filter (\<lambda>x. if P x then Some (g x) else None) xs = map g (filter P xs)"
  by (induction xs) auto

lemma generateDepartureTimes_filter:
  "generateDepartureTimes W startTime (Plain frequency) count =
     map (\<lambda>i. \<lparr>td_scheduled = startTime + frequency * int i * 60000,
                 td_estimated = adjusted W startTime frequency i,
                 td_status = determineStatus (startTime + frequency * int i * 60000)
                               (adjusted W startTime frequency i)\<rparr>)
       (filter (\<lambda>i. startTime < adjusted W startTime frequency i) [0..<count])"
  unfolding generateDepartureTimes_def departure_adjusted [abs_def] by (rule map_filter_if)

lemma adjusted_bound:
  assumes "0 \<le> random W [i]" "random W [i] < 1"
  shows "\<bar>adjusted W startTime frequency i - (startTime + frequency * int i * 60000)\<bar> \<le> 120000"
proof -
  let ?n = "startTime + frequency * int i * 60000"
  let ?v = "(random W [i] - 1 / 2) * 4 * 60000"
  have lo: "real_of_int (?n - 120000) \<le> real_of_int ?n + ?v" using assms by simp
  have hi: "real_of_int ?n + ?v \<le> real_of_int (?n + 120000)" using assms by simp
  have "?n - 120000 \<le> adjusted W startTime frequency i"
    using newDate_mono [OF lo] by (simp only: newDate_of_int adjusted_def)
  moreover have "adjusted W startTime frequency i \<le> ?n + 120000"
    using newDate_mono [OF hi] by (simp only: newDate_of_int adjusted_def)
  ultimately show ?thesis by linarith
qed

lemma generateDepartureTimes_Member: "generateDepartureTimes W startTime Member count = []"
  by (simp add: generateDepartureTimes_def departure_def map_filter_def)

text \<open>For a service with a line whose name is in the table of frequencies or does not name
  an inherited member, \<open>extractServiceTimes\<close> returns, for every journey pattern with a
  timing link reference and in the order of the patterns, the departures synthesized from
  eight candidates: candidate \<open>i\<close> (from 0 to 7) is scheduled at the current time plus \<open>i\<close>
  times the frequency of the line, its estimated time differs from the scheduled time by
  at most two minutes, and it is kept exactly when its estimated time is after the current
  time. The draws of \<open>Math.random()\<close> lie in the interval from 0 to 1, 1 excluded.\<close>

lemma extractServiceTimes_departures:
  assumes rnd: "\<forall>p. 0 \<le> random W p \<and> random W p < 1"
    and line: "Line service = Some line"
    and freq: "estimateFrequency (case LineName line of Some n \<Rightarrow> n | None \<Rightarrow> ''undefined'')
                 = Plain freq"
    and now: "now = clock W []"
  shows "\<exists>e. (\<forall>j i. \<bar>e j i - (now + freq * int i * 60000)\<bar> \<le> 120000)
     \<and> extractServiceTimes W service =
         concat (map (\<lambda>(j, pattern).
            if truthy (TimingLinkRef pattern)
            then map (\<lambda>i. \<lparr>td_scheduled = now + freq * int i * 60000,
                             td_estimated = e j i,
                             td_status = determineStatus (now + freq * int i * 60000) (e j i)\<rparr>)
                   (filter (\<lambda>i. now < e j i) [0..<8])
            else [])
          (enumerate0 (case JourneyPattern service of None \<Rightarrow> [] | Some ps \<Rightarrow> ps)))"
proof -
  let ?e = "\<lambda>j. adjusted (sub j W) now freq"
  have b: "\<forall>j i. \<bar>?e j i - (now + freq * int i * 60000)\<bar> \<le> 120000"
    using rnd by (simp add: adjusted_bound)
  have x: "extractServiceTimes W service =
         concat (map (\<lambda>(j, pattern).
            if truthy (TimingLinkRef pattern)
            then map (\<lambda>i. \<lparr>td_scheduled = now + freq * int i * 60000,
                             td_estimated = ?e j i,
                             td_status = determineStatus (now + freq * int i * 60000) (?e j i)\<rparr>)
                   (filter (\<lambda>i. now < ?e j i) [0..<8])
            else [])
          (enumerate0 (case JourneyPattern service of None \<Rightarrow> [] | Some ps \<Rightarrow> ps)))"
    unfolding extractServiceTimes_def Let_def line option.case freq now
      generateDepartureTimes_filter
    by (simp split: option.split)
  show ?thesis
    by (rule exI [of _ ?e]) (intro conjI b x)
qed

lemma estimateFrequency_table:
  "estimateFrequency lineName = Plain f \<Longrightarrow>
   (case frequencies lineName of None \<Rightarrow> f = 30 | Some f' \<Rightarrow> f = f')"
  by (auto simp: estimateFrequency_def frequencies_def split: option.splits if_splits)

text \<open>
  C9. A service of the line named \<open>constructor\<close> with a journey pattern that has a timing
  link reference: the name is not in the table of frequencies, the lookup finds the
  inherited member instead of the default of 30 minutes, and \<open>extractServiceTimes\<close>
  returns no departure at all, in every world, where eight candidates spaced by 30
  minutes are expected, of which those estimated after the current time are kept: the seven
  from the second on at the least, as their estimated times are at most two minutes before
  their scheduled times.
\<close>

theorem extractServiceTimes_constructor:
  "Line exConstructorService = Some exConstructorLine
   \<and> LineName exConstructorLine = Some ''constructor''
   \<and> JourneyPattern exConstructorService = Some [\<lparr>TimingLinkRef = Some ''TL1''\<rparr>]
   \<and> frequencies ''constructor'' = None
   \<and> estimateFrequency ''constructor'' = Member
   \<and> extractServiceTimes W exConstructorService = []"
  by (simp add: exConstructorService_def exConstructorLine_def frequencies_def
      estimateFrequency_def objectPrototypeMembers_def extractServiceTimes_def
      generateDepartureTimes_Member Let_def)

subsection \<open>Status and order of the services\<close>

lemma determineStatus_classify:
  "determineStatus s e = classify (real_of_int (e - s) / 60000)"
  by (simp add: determineStatus_def classify_def Let_def)

lemma generateDepartureTimes_ok: "list_all timeDataOk (generateDepartureTimes W s f n)"
  by (cases f)
    (simp_all add: generateDepartureTimes_filter generateDepartureTimes_Member list_all_iff
      timeDataOk_def)

lemma extractServiceTimes_ok: "list_all timeDataOk (extractServiceTimes W svc)"
  by (auto simp: extractServiceTimes_def Let_def list_all_iff generateDepartureTimes_ok [unfolded list_all_iff]
      split: option.splits if_splits)

lemma parseServices_ok:
  "timetableOk acc \<Longrightarrow> parseServices W k xs acc = Some r \<Longrightarrow> timetableOk r"
proof (induction xs arbitrary: k acc)
  case Nil
  then show ?case by simp
next
  case (Cons x xs)
  have upd: "\<And>ref. timetableOk (acc(ref \<mapsto> extractServiceTimes (sub k W) x))"
    using Cons.prems(1) by (simp add: timetableOk_def extractServiceTimes_ok)
  from Cons.prems(2) show ?case
    by (auto simp: Let_def split: option.splits if_splits
        intro: Cons.IH [OF Cons.prems(1)] Cons.IH [OF upd])
qed

lemma timetableOk_empty [simp]: "timetableOk Map.empty"
  by (simp add: timetableOk_def)

lemma parseTransXChange_ok: "timetableOk (parseTransXChange W doc)"
  using parseServices_ok [OF timetableOk_empty]
  by (auto simp: parseTransXChange_def split: txcDocument.splits option.splits)

lemma timetableOk_add: "timetableOk a \<Longrightarrow> timetableOk b \<Longrightarrow> timetableOk (a ++ b)"
  by (auto simp: timetableOk_def map_add_Some_iff)

lemma fetchDataset_ok: "timetableOk (fst acc) \<Longrightarrow> timetableOk (fst (fetchDataset W d acc))"
  by (auto simp: fetchDataset_def Let_def timetableOk_add parseTransXChange_ok
      split: prod.splits response.splits option.splits if_splits)

lemma fold_fetchDataset_ok:
  "timetableOk (fst acc) \<Longrightarrow>
   timetableOk (fst (fold (\<lambda>(d, datasetId). fetchDataset (sub d W) datasetId) ids acc))"
  by (induction ids arbitrary: acc) (auto simp: fetchDataset_ok split: prod.splits)

lemma fetchTimetableData_ok:
  assumes "fetchTimetableData W ids = Inr (tt, ws)"
  shows "timetableOk tt"
proof (cases ids)
  case None
  with assms show ?thesis by (simp add: fetchTimetableData_def)
next
  case (Some xs)
  with assms have "fold (\<lambda>(d, datasetId). fetchDataset (sub d W) datasetId)
      (enumerate0 xs) (Map.empty, []) = (tt, ws)"
    by (simp add: fetchTimetableData_def)
  with fold_fetchDataset_ok [of "(Map.empty, [])" W "enumerate0 xs"] show ?thesis
    by simp
qed

lemma fetchTimetableData_Some:
  "\<exists>tt ws. fetchTimetableData W (Some ids) = Inr (tt, ws)"
  by (simp add: fetchTimetableData_def)


lemma fallbackService_consistent: "statusConsistent (fallbackService W now r op f d i)"
  by (simp add: statusConsistent_def fallbackService_def Let_def determineStatus_classify)

lemma generateFallbackForRoute_consistent:
  "case generateFallbackForRoute W r op of
     Services services \<Rightarrow> list_all statusConsistent services
   | InvalidDates services \<Rightarrow> list_all (\<lambda>s. i_status s = estimated) services"
  by (simp add: generateFallbackForRoute_def Let_def list_all_iff fallbackService_consistent
      split: tableValue.split)

lemma validServices_consistent:
  assumes "r \<notin> set objectPrototypeMembers"
  shows "list_all statusConsistent (validServices (generateFallbackForRoute W r op))"
proof -
  from validServices_fallback [OF assms] obtain f where
    "validServices (generateFallbackForRoute W r op) =
       map (fallbackService W (clock W []) r op f (getDestinationForRoute r)) [0..<4]" ..
  then show ?thesis by (simp add: list_all_iff fallbackService_consistent)
qed

lemma routeServices_consistent:
  assumes "timetableOk tt" and m: "r \<notin> set objectPrototypeMembers"
  shows "list_all statusConsistent (routeServices W cfg tt r)"
proof (cases "tt r")
  case None
  then show ?thesis by (simp add: routeServices_def m validServices_consistent)
next
  case (Some xs)
  with assms have "list_all timeDataOk xs" by (simp add: timetableOk_def)
  then have "list_all statusConsistent (map (\<lambda>timeData.
                 \<lparr>routeNumber = r,
                  destination = getDestinationForRoute r,
                  operator = firstOperator cfg,
                  scheduledTime = td_scheduled timeData,
                  estimatedTime = Some (td_estimated timeData),
                  status = td_status timeData,
                  source = timetable\<rparr>) xs)"
    by (simp add: list_all_iff statusConsistent_def timeDataOk_def determineStatus_classify)
  with Some show ?thesis by (simp add: routeServices_def m validServices_consistent)
qed

lemma enhanceService_consistent:
  "statusConsistent s \<Longrightarrow> statusConsistent (enhanceService W vs s)"
  by (auto simp: enhanceService_find statusConsistent_def split: option.splits if_splits)

lemma set_enumerate0: "(k, x) \<in> set (enumerate0 xs) \<Longrightarrow> x \<in> set xs"
  by (auto dest: set_zip_rightD)

lemma enhanceWithVehicleData_consistent:
  "list_all statusConsistent xs \<Longrightarrow> list_all statusConsistent (enhanceWithVehicleData W xs vs)"
  by (auto simp: enhanceWithVehicleData_def list_all_iff enhanceService_consistent
      dest!: set_zip_rightD)

lemma processBusServices_consistent:
  assumes "timetableOk tt" and m: "\<And>r. r \<in> set (routes cfg) \<Longrightarrow> r \<notin> set objectPrototypeMembers"
  shows "list_all statusConsistent (processBusServices W cfg tt vs)"
proof -
  let ?services = "concat (map (\<lambda>(r, routeNumber').
              routeServices (sub r (sub 0 W)) cfg tt routeNumber') (enumerate0 (routes cfg)))"
  have "list_all statusConsistent (routeServices W' cfg tt r)"
    if "(k, r) \<in> set (enumerate0 (routes cfg))" for W' k r
    by (rule routeServices_consistent [OF assms(1) m [OF set_enumerate0 [OF that]]])
  then have "list_all statusConsistent ?services"
    by (auto simp: list_all_iff)
  then have "list_all statusConsistent (enhanceWithVehicleData (sub 1 W) ?services vs)"
    by (rule enhanceWithVehicleData_consistent)
  then show ?thesis
    unfolding processBusServices_def Let_def list_all_iff
    by (meson in_set_takeD set_sort [THEN equalityD1, THEN subsetD])
qed

lemma getFallbackDataForStop_consistent:
  assumes "getFallbackDataForStop W stopId = Inr r"
  shows "list_all statusConsistent r"
proof (cases "stopsLookup stopId")
  case Undefined
  with assms show ?thesis by (simp add: getFallbackDataForStop_def)
next
  case (Own cfg)
  let ?services = "concat (map (\<lambda>(r, routeNumber').
                 validServices
                   (generateFallbackForRoute (sub r W) routeNumber' (firstOperator cfg)))
                 (enumerate0 (routes cfg)))"
  from Own have reg: "map_of stops stopId = Some cfg"
    by (simp add: stopsLookup_def split: option.splits if_splits)
  have "list_all statusConsistent (validServices (generateFallbackForRoute W' r op))"
    if "(k, r) \<in> set (enumerate0 (routes cfg))" for W' k r op
    by (rule validServices_consistent [OF registered_routes [OF reg set_enumerate0 [OF that]]])
  then have "list_all statusConsistent ?services"
    by (auto simp: list_all_iff)
  moreover from assms Own have "r = take 6 (sort_key serviceTime ?services)"
    by (simp add: getFallbackDataForStop_def Let_def)
  ultimately show ?thesis
    unfolding list_all_iff by (meson in_set_takeD set_sort [THEN equalityD1, THEN subsetD])
next
  case Inherited
  with assms show ?thesis by (simp add: getFallbackDataForStop_def)
qed

lemma sorted_take_sort:
  "sorted (map f (take n (sort_key f xs))) \<and> length (take n (sort_key f xs)) \<le> n"
  by (simp add: take_map [symmetric] sorted_wrt_take)

lemma processBusServices_sorted:
  "sorted (map serviceTime (processBusServices W cfg tt vs))
   \<and> length (processBusServices W cfg tt vs) \<le> 8"
  unfolding processBusServices_def Let_def by (rule sorted_take_sort)

lemma getFallbackDataForStop_sorted:
  assumes "getFallbackDataForStop W stopId = Inr r"
  shows "sorted (map serviceTime r) \<and> length r \<le> 6"
proof (cases "stopsLookup stopId")
  case (Own cfg)
  with assms show ?thesis
    using sorted_take_sort [of serviceTime 6] by (auto simp: getFallbackDataForStop_def Let_def)
qed (use assms in \<open>simp_all add: getFallbackDataForStop_def\<close>)

subsection \<open>The cache and the services of a stop\<close>

lemma cache_get_Some:
  "cache_get now c k = Some v \<longleftrightarrow> (\<exists>e. entries c k = Some e \<and> val e = v \<and> now \<le> expiresAt e)"
  by (auto simp: cache_get_def split: option.splits)

lemma cached_set:
  "cached P this \<Longrightarrow> P v \<Longrightarrow> cached P (that\<lparr>cache := cache_set now (cache this) k v ttl\<rparr>)"
  by (simp add: cached_def cache_set_def)

lemma cached_cacheHit [simp]: "cached P (this\<lparr>cacheHit := b\<rparr>) = cached P this"
  by (simp add: cached_def)

lemma getVehiclePositions_cache [simp]:
  "cache (snd (getVehiclePositions W this)) = cache this"
  "cacheHit (snd (getVehiclePositions W this)) = cacheHit this"
  by (simp_all add: getVehiclePositions_def Let_def split: option.split response.split)

lemma cached_vehicles: "cached P (snd (getVehiclePositions W this)) = cached P this"
  by (simp add: cached_def)

lemma fallbackBranch_invariant:
  assumes "cached P this"
    and "\<And>W r. getFallbackDataForStop W stopId = Inr r \<Longrightarrow> P r"
    and "fallbackBranch W this stopId = (r, this')"
  shows "(case r of Inl e \<Rightarrow> True | Inr xs \<Rightarrow> P xs) \<and> cached P this'"
  using assms by (auto simp: fallbackBranch_def cached_set split: sum.splits)

lemma getBusTimesForStop_fresh:
  assumes "stopsLookup stopId = Own cfg"
    and "cache_get (clock W [0]) (cache this) (''stop_'' @ stopId) = None"
  shows "\<exists>tt ws. fetchTimetableData (sub 1 W) (Some (datasets cfg)) = Inr (tt, ws) \<and>
     getBusTimesForStop W this stopId =
       (let this1 = this\<lparr>cacheHit := False\<rparr>;
            vehicles = fst (getVehiclePositions (sub 2 W) this1);
            this2 = snd (getVehiclePositions (sub 2 W) this1);
            busServices = processBusServices (sub 3 W) cfg tt vehicles
        in (Inr busServices,
            this2\<lparr>cache := cache_set (clock W [4]) (cache this2) (''stop_'' @ stopId)
                               busServices None\<rparr>))"
proof -
  obtain tt ws where f: "fetchTimetableData (sub 1 W) (Some (datasets cfg)) = Inr (tt, ws)"
    using fetchTimetableData_Some by blast
  show ?thesis
    using assms f by (simp add: getBusTimesForStop_def Let_def case_prod_beta)
qed

lemma getBusTimesForStop_invariant:
  assumes c: "cached P this"
    and fresh: "\<And>W cfg tt vs. stopsLookup stopId = Own cfg \<Longrightarrow> timetableOk tt
                  \<Longrightarrow> P (processBusServices W cfg tt vs)"
    and fb: "\<And>W r. getFallbackDataForStop W stopId = Inr r \<Longrightarrow> P r"
    and res: "getBusTimesForStop W this stopId = (r, this')"
  shows "(case r of Inl e \<Rightarrow> True | Inr xs \<Rightarrow> P xs) \<and> cached P this'"
proof (cases "cache_get (clock W [0]) (cache this) (''stop_'' @ stopId)")
  case (Some xs)
  with c have "P xs" by (auto simp: cache_get_Some cached_def)
  with Some res c show ?thesis by (auto simp: getBusTimesForStop_def)
next
  case None
  show ?thesis
  proof (cases "stopsLookup stopId")
    case Undefined
    with None res c show ?thesis by (auto simp: getBusTimesForStop_def)
  next
    case Inherited
    with None res have "fallbackBranch W (this\<lparr>cacheHit := False\<rparr>) stopId = (r, this')"
      by (simp add: getBusTimesForStop_def fetchTimetableData_def)
    with c fb show ?thesis
      using fallbackBranch_invariant [of P "this\<lparr>cacheHit := False\<rparr>" stopId W r this'] by simp
  next
    case (Own cfg)
    from getBusTimesForStop_fresh [OF Own None] obtain tt ws where
      f: "fetchTimetableData (sub 1 W) (Some (datasets cfg)) = Inr (tt, ws)"
      and g: "getBusTimesForStop W this stopId =
       (let this1 = this\<lparr>cacheHit := False\<rparr>;
            vehicles = fst (getVehiclePositions (sub 2 W) this1);
            this2 = snd (getVehiclePositions (sub 2 W) this1);
            busServices = processBusServices (sub 3 W) cfg tt vehicles
        in (Inr busServices,
            this2\<lparr>cache := cache_set (clock W [4]) (cache this2) (''stop_'' @ stopId)
                               busServices None\<rparr>))" by blast
    have p: "\<And>vs. P (processBusServices (sub 3 W) cfg tt vs)"
      using fetchTimetableData_ok [OF f] fresh [OF Own] by simp
    from res g c show ?thesis
      by (auto simp: Let_def p cached_set cached_vehicles)
  qed
qed

subsection \<open>Stand P in the example world\<close>

lemma ex_lookup: "stopsLookup ''079073279B'' = Own exConfig"
  by (simp add: stopsLookup_def stops_def exConfig_def)

lemma ex_fetch:
  "fetchTimetableData W (Some [''15890'']) = Inr (Map.empty, [FailedToFetchDataset ''15890'' (DatasetApiReturned 503)])"
  if "fetchMetadata W = (\<lambda>d. Response 503 None)"
  using that by (simp add: fetchTimetableData_def fetchDataset_def)

lemma sub_fun:
  "random (sub k W) = (\<lambda>p. random W (k # p))" "clock (sub k W) = (\<lambda>p. clock W (k # p))"
  by (simp_all add: sub_def)

lemma ex_vehicles:
  "getVehiclePositions (sub 2 exWorld) (exState\<lparr>cacheHit := False\<rparr>) =
     ([exVehicle], exState\<lparr>cacheHit := False, vehicleCache := \<lparr>entries = [''vehicle_positions'' \<mapsto> \<lparr>val = [exVehicle], expiresAt = 1700000030000\<rparr>], stdTTL = 30\<rparr>\<rparr>)"
  by (simp add: getVehiclePositions_def exState_def cache_get_def cache_set_def exWorld_def
      parseSIRIVM_def orElse_def exVehicle_def Let_def)

lemma ex_route_17A:
  assumes "random W = (\<lambda>p. 1 / 2)" "clock W = (\<lambda>p. 1700000000000)"
  shows "routeServices W exConfig Map.empty ''17A'' =
     map (exFallback ''17A'' ''Stockton via Ingleby Barwick'')
       [1700000000000, 1700000900000, 1700001800000, 1700002700000]"
  by (simp add: routeServices_def generateFallbackForRoute_def validServices_def
      fallbackService_def Let_def upt_0_4 objectPrototypeMembers_def
      exFallback_def estimateFrequency_def frequencies_def getDestinationForRoute_def
      destinations_def firstOperator_def exConfig_def determineStatus_def assms)

lemma ex_route_17B:
  assumes "random W = (\<lambda>p. 1 / 2)" "clock W = (\<lambda>p. 1700000000000)"
  shows "routeServices W exConfig Map.empty ''17B'' =
     map (exFallback ''17B'' ''Stockton via Thornaby'')
       [1700000000000, 1700001200000, 1700002400000, 1700003600000]"
  by (simp add: routeServices_def generateFallbackForRoute_def validServices_def
      fallbackService_def Let_def upt_0_4 objectPrototypeMembers_def
      exFallback_def estimateFrequency_def frequencies_def getDestinationForRoute_def
      destinations_def firstOperator_def exConfig_def determineStatus_def assms)

lemma ex_eta: "random W = (\<lambda>p. 1 / 2) \<Longrightarrow> calculateETA W v = 4"
  by (simp add: calculateETA_def round_def)

lemma ex_matches:
  "matches (exFallback ''17A'' d t) exVehicle" "\<not> matches (exFallback ''17B'' d t) exVehicle"
  by (simp_all add: matches_def exVehicle_def exFallback_def)

lemma ex_enhance_17A:
  assumes "random W = (\<lambda>p. 1 / 2)" "clock W = (\<lambda>p. 1700000000000)"
  shows "enhanceService W [exVehicle]
     (exFallback ''17A'' ''Stockton via Ingleby Barwick'' t) = exTracked t"
  by (simp add: enhanceService_def ex_matches ex_eta [OF assms(1)] assms(2))
     (simp add: exFallback_def exTracked_def)

lemma ex_enhance_17B:
  "enhanceService W [exVehicle] (exFallback ''17B'' d t) = exFallback ''17B'' d t"
  by (simp add: enhanceService_def ex_matches)

lemma ex_time [simp]:
  "serviceTime (exFallback r d t) = t" "serviceTime (exTracked t) = 1700000240000"
  by (simp_all add: serviceTime_def exFallback_def exTracked_def)

lemma ex_still:
  "random (sub i (sub j (sub k exWorld))) = (\<lambda>p. 1 / 2)"
  "clock (sub i (sub j (sub k exWorld))) = (\<lambda>p. 1700000000000)"
  by (simp_all add: sub_fun exWorld_def)

lemma ex_process:
  "processBusServices (sub 3 exWorld) exConfig Map.empty [exVehicle] = exServices"
proof -
  have r: "routes exConfig = [''17A'', ''17B'']" by (simp add: exConfig_def)
  have u: "[0..<2] = [0, 1::nat]" "[0..<8] = [0, 1, 2, 3, 4, 5, 6, 7::nat]" by code_simp+
  have e: "enumerate0 [''17A'', ''17B''] = [(0, ''17A''), (1, ''17B'')]" by (simp add: u)
  have s: "concat (map (\<lambda>(r, routeNumber').
              routeServices (sub r (sub 0 (sub 3 exWorld))) exConfig Map.empty routeNumber')
              (enumerate0 (routes exConfig))) =
     map (exFallback ''17A'' ''Stockton via Ingleby Barwick'')
       [1700000000000, 1700000900000, 1700001800000, 1700002700000] @
     map (exFallback ''17B'' ''Stockton via Thornaby'')
       [1700000000000, 1700001200000, 1700002400000, 1700003600000]"
    unfolding r e by (simp add: ex_route_17A [OF ex_still] ex_route_17B [OF ex_still])
  show ?thesis
    unfolding processBusServices_def Let_def s
    by (simp add: u enhanceWithVehicleData_def ex_enhance_17A [OF ex_still] ex_enhance_17B
        exServices_def)
qed

lemma ex_result:
  "getBusTimesForStop exWorld exState ''079073279B'' =
     (Inr exServices,
      exState\<lparr>cacheHit := False,
        vehicleCache := \<lparr>entries = [''vehicle_positions'' \<mapsto> \<lparr>val = [exVehicle], expiresAt = 1700000030000\<rparr>], stdTTL = 30\<rparr>,
        cache := \<lparr>entries = [''stop_079073279B'' \<mapsto> \<lparr>val = exServices, expiresAt = 1700000300000\<rparr>], stdTTL = 300\<rparr>\<rparr>)"
proof -
  have g: "cache_get (clock exWorld [0]) (cache exState) (''stop_'' @ ''079073279B'') = None"
    by (simp add: cache_get_def exState_def)
  have d: "datasets exConfig = [''15890'']" by (simp add: exConfig_def)
  have f: "fetchTimetableData (sub 1 exWorld) (Some [''15890''])
      = Inr (Map.empty, [FailedToFetchDataset ''15890'' (DatasetApiReturned 503)])"
    by (rule ex_fetch) (simp add: exWorld_def)
  have c: "clock exWorld [4] = 1700000000000" by (simp add: exWorld_def)
  from getBusTimesForStop_fresh [OF ex_lookup g] obtain tt ws where
    t: "fetchTimetableData (sub 1 exWorld) (Some (datasets exConfig)) = Inr (tt, ws)"
    and r: "getBusTimesForStop exWorld exState ''079073279B'' =
       (let this1 = exState\<lparr>cacheHit := False\<rparr>;
            vehicles = fst (getVehiclePositions (sub 2 exWorld) this1);
            this2 = snd (getVehiclePositions (sub 2 exWorld) this1);
            busServices = processBusServices (sub 3 exWorld) exConfig tt vehicles
        in (Inr busServices,
            this2\<lparr>cache := cache_set (clock exWorld [4]) (cache this2) (''stop_'' @ ''079073279B'')
                               busServices None\<rparr>))"
    by blast
  from t f d have "tt = Map.empty" by simp
  with r show ?thesis
    by (simp add: ex_vehicles ex_process Let_def c) (simp add: cache_set_def exState_def)
qed

subsection \<open>The query for one stop\<close>

lemma stopsLookup_Own: "stopsLookup stopId = Own cfg \<longleftrightarrow> map_of stops stopId = Some cfg"
  by (auto simp: stopsLookup_def split: option.splits)

lemma getBusTimesForStop_hit:
  "cache_get (clock W [0]) (cache this) (''stop_'' @ stopId) = Some xs \<Longrightarrow>
   getBusTimesForStop W this stopId = (Inr xs, this\<lparr>cacheHit := True\<rparr>)"
  by (simp add: getBusTimesForStop_def)

lemma getBusTimesForStop_registered:
  assumes "map_of stops stopId = Some cfg"
  shows "\<exists>services this'. getBusTimesForStop W this stopId = (Inr services, this')"
proof (cases "cache_get (clock W [0]) (cache this) (''stop_'' @ stopId)")
  case None
  from getBusTimesForStop_fresh [OF assms [folded stopsLookup_Own] None] show ?thesis
    by (auto simp: Let_def)
next
  case (Some xs)
  then show ?thesis by (simp add: getBusTimesForStop_hit)
qed

lemma fallbackBranch_registered:
  assumes "map_of stops stopId = Some cfg"
  shows "\<exists>fallbackData that. fallbackBranch W this stopId = (Inr fallbackData, that)
     \<and> getFallbackDataForStop (sub 5 W) stopId = Inr fallbackData"
  using assms [folded stopsLookup_Own]
  by (simp add: fallbackBranch_def getFallbackDataForStop_def Let_def)

text \<open>
  C4. For every stop id of the registry, \<open>getBusTimesForStop\<close> returns a list (not an
  error) in non-decreasing order of \<open>estimatedTime\<close>, or \<open>scheduledTime\<close> where there is
  no estimated time, with at most 8 entries; the fallback path, the \<open>catch\<close> of the method,
  returns such a list with at most 6 entries. The lists held in the cache are lists
  returned earlier, so they are assumed to be in order with at most 8 entries, which holds
  for the empty cache and is kept by every call.
\<close>

theorem getBusTimesForStop_ranked:
  assumes reg: "map_of stops stopId = Some cfg"
    and c: "cached (ranked 8) this"
  shows "(\<exists>services this'. getBusTimesForStop W this stopId = (Inr services, this')
            \<and> ranked 8 services \<and> cached (ranked 8) this')
       \<and> (\<exists>fallbackData that. fallbackBranch W this stopId = (Inr fallbackData, that)
            \<and> ranked 6 fallbackData \<and> cached (ranked 8) that)"
proof -
  have fresh: "\<And>W cfg tt vs. timetableOk tt \<Longrightarrow> ranked 8 (processBusServices W cfg tt vs)"
    by (simp add: ranked_def processBusServices_sorted)
  have fb6: "\<And>W r. getFallbackDataForStop W stopId = Inr r \<Longrightarrow> ranked 6 r"
    by (simp add: ranked_def getFallbackDataForStop_sorted)
  then have fb: "\<And>W r. getFallbackDataForStop W stopId = Inr r \<Longrightarrow> ranked 8 r"
    by (fastforce simp: ranked_def)
  obtain services this' where g: "getBusTimesForStop W this stopId = (Inr services, this')"
    using getBusTimesForStop_registered [OF reg] by blast
  from getBusTimesForStop_invariant [of "ranked 8", OF c fresh fb g]
  have 1: "ranked 8 services \<and> cached (ranked 8) this'" by simp
  obtain fallbackData that where f: "fallbackBranch W this stopId = (Inr fallbackData, that)"
    and f': "getFallbackDataForStop (sub 5 W) stopId = Inr fallbackData"
    using fallbackBranch_registered [OF reg] by blast
  from fallbackBranch_invariant [of "ranked 8", OF c fb f] fb6 [OF f']
  have 2: "ranked 6 fallbackData \<and> cached (ranked 8) that" by simp
  from g 1 f 2 show ?thesis by blast
qed

lemma ex_registered: "map_of stops ''079073279B'' = Some exConfig"
  using ex_lookup by (simp add: stopsLookup_Own)

lemma ex_cached: "cached P exState"
  by (simp add: cached_def exState_def)

theorem getBusTimesForStop_ranked_witness:
  "map_of stops ''079073279B'' = Some exConfig \<and> cached (ranked 8) exState
   \<and> fst (getBusTimesForStop exWorld exState ''079073279B'') = Inr exServices
   \<and> ranked 8 exServices"
  using getBusTimesForStop_ranked [OF ex_registered ex_cached, of exWorld]
    ex_registered ex_cached [of "ranked 8"] ex_result
  by auto

text \<open>
  C7. For every stop id of the registry, after a call of \<open>getBusTimesForStop\<close> the cache
  holds the returned list under the key of the stop, stored for the default time to live
  when the call computed it; a second call that reads the clock no later than the expiry
  of that entry returns the same list, leaves the cache as it is and sets the cache-hit
  flag.
\<close>

theorem getBusTimesForStop_twice:
  assumes reg: "map_of stops stopId = Some cfg"
    and first: "getBusTimesForStop W1 this stopId = (r1, this1)"
  shows "\<exists>services e. r1 = Inr services
     \<and> entries (cache this1) (''stop_'' @ stopId) = Some e \<and> val e = services
     \<and> (cache_get (clock W1 [0]) (cache this) (''stop_'' @ stopId) = None
          \<longrightarrow> expiresAt e = clock W1 [4] + stdTTL (cache this) * 1000)
     \<and> (clock W2 [0] \<le> expiresAt e
          \<longrightarrow> getBusTimesForStop W2 this1 stopId = (Inr services, this1\<lparr>cacheHit := True\<rparr>)
              \<and> isCacheHit (snd (getBusTimesForStop W2 this1 stopId)))"
proof (cases "cache_get (clock W1 [0]) (cache this) (''stop_'' @ stopId)")
  case (Some xs)
  then obtain e where e: "entries (cache this) (''stop_'' @ stopId) = Some e" "val e = xs"
    by (auto simp: cache_get_Some)
  from first Some have r: "r1 = Inr xs" "this1 = this\<lparr>cacheHit := True\<rparr>"
    by (simp_all add: getBusTimesForStop_hit)
  have "clock W2 [0] \<le> expiresAt e \<Longrightarrow>
      cache_get (clock W2 [0]) (cache this1) (''stop_'' @ stopId) = Some xs"
    using e r by (simp add: cache_get_Some)
  then have "clock W2 [0] \<le> expiresAt e \<Longrightarrow>
      getBusTimesForStop W2 this1 stopId = (Inr xs, this1\<lparr>cacheHit := True\<rparr>)"
    by (rule getBusTimesForStop_hit)
  with e r Some show ?thesis by (simp add: isCacheHit_def)
next
  case None
  from getBusTimesForStop_fresh [OF reg [folded stopsLookup_Own] None] first
  obtain xs that where r: "r1 = Inr xs"
    "this1 = that\<lparr>cache := cache_set (clock W1 [4]) (cache this) (''stop_'' @ stopId) xs None\<rparr>"
    by (auto simp: Let_def)
  let ?e = "\<lparr>val = xs, expiresAt = clock W1 [4] + stdTTL (cache this) * 1000\<rparr>"
  have e: "entries (cache this1) (''stop_'' @ stopId) = Some ?e"
    using r by (simp add: cache_set_def)
  have "clock W2 [0] \<le> expiresAt ?e \<Longrightarrow>
      cache_get (clock W2 [0]) (cache this1) (''stop_'' @ stopId) = Some xs"
    using e by (simp add: cache_get_Some)
  then have "clock W2 [0] \<le> expiresAt ?e \<Longrightarrow>
      getBusTimesForStop W2 this1 stopId = (Inr xs, this1\<lparr>cacheHit := True\<rparr>)"
    by (rule getBusTimesForStop_hit)
  with e r show ?thesis by (simp add: isCacheHit_def)
qed


theorem getBusTimesForStop_twice_witness:
  "map_of stops ''079073279B'' = Some exConfig
   \<and> getBusTimesForStop exWorld exState ''079073279B'' = (Inr exServices, exStateAfter)
   \<and> clock exLater [0] \<le> 1700000300000
   \<and> getBusTimesForStop exLater exStateAfter ''079073279B''
       = (Inr exServices, exStateAfter\<lparr>cacheHit := True\<rparr>)
   \<and> isCacheHit (snd (getBusTimesForStop exLater exStateAfter ''079073279B''))"
proof -
  have first: "getBusTimesForStop exWorld exState ''079073279B'' = (Inr exServices, exStateAfter)"
    using ex_result by (simp add: exStateAfter_def)
  have e: "entries (cache exStateAfter) (''stop_'' @ ''079073279B'')
      = Some \<lparr>val = exServices, expiresAt = 1700000300000\<rparr>"
    by (simp add: exStateAfter_def)
  have l: "clock exLater [0] \<le> 1700000300000"
    by (simp add: exLater_def)
  from getBusTimesForStop_twice [OF ex_registered first, of exLater] e l
  have "getBusTimesForStop exLater exStateAfter ''079073279B''
       = (Inr exServices, exStateAfter\<lparr>cacheHit := True\<rparr>)
     \<and> isCacheHit (snd (getBusTimesForStop exLater exStateAfter ''079073279B''))"
    by auto
  with ex_registered first l show ?thesis by (simp add: isCacheHit_def)
qed

subsection \<open>Stop ids outside the registry\<close>

lemma getBusTimesForStop_unknown:
  assumes "stopsLookup stopId = Undefined"
    and "entries (cache this) (''stop_'' @ stopId) = None"
  shows "getBusTimesForStop W this stopId = (Inl (UnknownStop stopId), this\<lparr>cacheHit := False\<rparr>)"
  using assms by (simp add: getBusTimesForStop_def cache_get_def)

lemma getBusTimesForStop_inherited:
  assumes "stopsLookup stopId = Inherited"
    and "entries (cache this) (''stop_'' @ stopId) = None"
  shows "getBusTimesForStop W this stopId = (Inl TypeError, this\<lparr>cacheHit := False\<rparr>)"
  using assms
  by (simp add: getBusTimesForStop_def cache_get_def fetchTimetableData_def fallbackBranch_def
      getFallbackDataForStop_def)

lemma getBusTimesForStop_unregistered:
  assumes "map_of stops stopId = None"
    and "entries (cache this) (''stop_'' @ stopId) = None"
  shows "getBusTimesForStop W this stopId =
     (Inl (if stopId \<in> set objectPrototypeMembers then TypeError else UnknownStop stopId),
      this\<lparr>cacheHit := False\<rparr>)"
proof (cases "stopId \<in> set objectPrototypeMembers")
  case True
  with assms(1) have "stopsLookup stopId = Inherited" by (simp add: stopsLookup_def)
  with assms(2) True show ?thesis by (simp add: getBusTimesForStop_inherited)
next
  case False
  with assms(1) have "stopsLookup stopId = Undefined" by (simp add: stopsLookup_def)
  with assms(2) False show ?thesis by (simp add: getBusTimesForStop_unknown)
qed

lemma getBusTimesForStop_writes:
  assumes "getBusTimesForStop W this stopId = (r, this')"
  shows "entries (cache this') = entries (cache this)
     \<or> (\<exists>cfg e. map_of stops stopId = Some cfg
           \<and> entries (cache this') = (entries (cache this))(''stop_'' @ stopId \<mapsto> e))"
proof (cases "cache_get (clock W [0]) (cache this) (''stop_'' @ stopId)")
  case (Some xs)
  with assms show ?thesis by (auto simp: getBusTimesForStop_hit)
next
  case None
  show ?thesis
  proof (cases "stopsLookup stopId")
    case Undefined
    with None assms show ?thesis by (auto simp: getBusTimesForStop_def)
  next
    case Inherited
    with None assms show ?thesis
      by (auto simp: getBusTimesForStop_def fetchTimetableData_def fallbackBranch_def
          getFallbackDataForStop_def)
  next
    case (Own cfg)
    from getBusTimesForStop_fresh [OF Own None] assms Own show ?thesis
      by (auto simp: Let_def cache_set_def stopsLookup_Own)
  qed
qed

text \<open>
  C5. The id \<open>toString\<close> is not in the stop registry, and the cache holds nothing for it;
  the call for it fails, but with a TypeError and not with the unknown-stop error: the
  lookup in the registry finds the member of that name that every object inherits, the
  guard for unknown stops is passed, the fetch of the datasets of the stop throws, and so
  does the fallback in the \<open>catch\<close>. The cache is left as it was. (For an id that is
  neither in the registry nor the name of an inherited member the call fails with the
  unknown-stop error, lemma \<open>getBusTimesForStop_unknown\<close>.)
\<close>

theorem getBusTimesForStop_toString:
  "map_of stops ''toString'' = None
   \<and> getBusTimesForStop W exState ''toString'' = (Inl TypeError, exState\<lparr>cacheHit := False\<rparr>)
   \<and> cache (exState\<lparr>cacheHit := False\<rparr>) = cache exState"
proof -
  have "stopsLookup ''toString'' = Inherited"
    by (simp add: stopsLookup_def stops_def objectPrototypeMembers_def)
  moreover have "entries (cache exState) (''stop_'' @ ''toString'') = None"
    by (simp add: exState_def)
  ultimately show ?thesis
    by (simp add: getBusTimesForStop_inherited) (simp add: stops_def)
qed

subsection \<open>Failing fetches\<close>

text \<open>
  C2. A status that is not a success on the request for the metadata of a dataset is thrown
  and written as a warning that names the dataset and the status. The same status on the
  request for the body of the dataset is not: \<open>fetchTimetableData\<close> returns no data for
  the dataset and no warning, as if the dataset were empty.
\<close>

theorem fetchTimetableData_silent:
  "fetchTimetableData exBodyFails (Some [''15890'']) = Inr (Map.empty, [])
   \<and> fetchTimetableData exWorld (Some [''15890''])
       = Inr (Map.empty, [FailedToFetchDataset ''15890'' (DatasetApiReturned 503)])"
proof -
  have "fetchTimetableData exBodyFails (Some [''15890'']) = Inr (Map.empty, [])"
    by (simp add: fetchTimetableData_def fetchDataset_def exBodyFails_def)
  moreover have "fetchTimetableData exWorld (Some [''15890''])
       = Inr (Map.empty, [FailedToFetchDataset ''15890'' (DatasetApiReturned 503)])"
    by (rule ex_fetch) (simp add: exWorld_def)
  ultimately show ?thesis by simp
qed

lemma datasetFails_sub [simp]: "datasetFails (sub k W) d = datasetFails W d"
  unfolding datasetFails_def fetch_sub ..

lemma fetchDataset_fails:
  "datasetFails W d \<Longrightarrow> fst (fetchDataset (sub k W) d acc) = fst acc"
  by (auto simp: datasetFails_def fetchDataset_def Let_def
      split: prod.splits response.splits option.splits if_splits)

lemma fold_fetchDataset_fails:
  "\<forall>(k, d) \<in> set xs. datasetFails W d \<Longrightarrow>
   fst (fold (\<lambda>(d, datasetId). fetchDataset (sub d W) datasetId) xs acc) = fst acc"
  by (induction xs arbitrary: acc) (auto simp: fetchDataset_fails)

lemma fetchTimetableData_fails:
  assumes "\<forall>d \<in> set ids. datasetFails W d"
    and "fetchTimetableData (sub k W) (Some ids) = Inr (tt, ws)"
  shows "tt = Map.empty"
proof -
  have "\<forall>(k, d) \<in> set (enumerate0 ids). datasetFails W d"
    using assms(1) by (auto dest: set_zip_rightD)
  then have "\<forall>(j, d) \<in> set (enumerate0 ids). datasetFails (sub k W) d"
    by simp
  from fold_fetchDataset_fails [OF this, of "(Map.empty, [])"] assms(2) show ?thesis
    by (simp add: fetchTimetableData_def)
qed

lemma matches_enhanceService [simp]: "matches (enhanceService W vs s) v = matches s v"
  by (simp add: matches_def enhanceService_find split: option.split)

lemma source_enhanceService:
  "source s = fallback \<Longrightarrow>
   source (enhanceService W vs s) = (if \<exists>v \<in> set vs. matches s v then vehicle_tracking else fallback)"
  by (auto simp: enhanceService_find find_None_iff find_Some_iff split: option.splits)

lemma routeServices_empty:
  assumes "r \<notin> set objectPrototypeMembers" and "s \<in> set (routeServices W cfg Map.empty r)"
  shows "source s = fallback"
proof -
  from validServices_fallback [OF assms(1)] obtain f where
    "validServices (generateFallbackForRoute W r (firstOperator cfg)) =
       map (fallbackService W (clock W []) r (firstOperator cfg) f (getDestinationForRoute r))
         [0..<4]" ..
  with assms show ?thesis
    by (auto simp: routeServices_def fallbackService_def Let_def)
qed

lemma processBusServices_empty:
  assumes "s \<in> set (processBusServices W cfg Map.empty vs)"
    and m: "\<And>r. r \<in> set (routes cfg) \<Longrightarrow> r \<notin> set objectPrototypeMembers"
  shows "source s = (if \<exists>v \<in> set vs. matches s v then vehicle_tracking else fallback)"
proof -
  let ?services = "concat (map (\<lambda>(r, routeNumber').
              routeServices (sub r (sub 0 W)) cfg Map.empty routeNumber') (enumerate0 (routes cfg)))"
  from assms have "s \<in> set (enhanceWithVehicleData (sub 1 W) ?services vs)"
    unfolding processBusServices_def Let_def
    by (meson in_set_takeD set_sort [THEN equalityD1, THEN subsetD])
  then obtain k s0 where s0: "s0 \<in> set ?services" and s: "s = enhanceService (sub k (sub 1 W)) vs s0"
    by (auto simp: enhanceWithVehicleData_def dest!: set_zip_rightD)
  from s0 obtain k' r where r: "(k', r) \<in> set (enumerate0 (routes cfg))"
    and r0: "s0 \<in> set (routeServices (sub k' (sub 0 W)) cfg Map.empty r)"
    by auto
  have "source s0 = fallback"
    by (rule routeServices_empty [OF m [OF set_enumerate0 [OF r]] r0])
  then show ?thesis
    unfolding s by (simp add: source_enhanceService)
qed

text \<open>For every stop of the registry with no unexpired entry in the cache, if the fetch
  fails for every dataset of the stop, \<open>getBusTimesForStop\<close> returns the list that
  \<open>processBusServices\<close> builds from no timetable data at all: the fallback departures of
  the routes of the stop after the live enhancement, in order, at most 8 of them. No entry
  has source \<open>timetable\<close>; an entry has source \<open>vehicle_tracking\<close> when a vehicle
  observation matches its route and source \<open>fallback\<close> otherwise. The list is cached for
  the default time to live. The \<open>catch\<close> of \<open>getBusTimesForStop\<close> is not entered.\<close>

lemma fetch_failure_live_path:
  assumes reg: "map_of stops stopId = Some cfg"
    and miss: "cache_get (clock W [0]) (cache this) (''stop_'' @ stopId) = None"
    and fail: "\<forall>d \<in> set (datasets cfg). datasetFails W d"
  shows "\<exists>services this'. getBusTimesForStop W this stopId = (Inr services, this')
     \<and> services = processBusServices (sub 3 W) cfg Map.empty
                    (fst (getVehiclePositions (sub 2 W) (this\<lparr>cacheHit := False\<rparr>)))
     \<and> length services \<le> 8
     \<and> (\<forall>s \<in> set services. source s =
           (if \<exists>v \<in> set (fst (getVehiclePositions (sub 2 W) (this\<lparr>cacheHit := False\<rparr>))). matches s v
            then vehicle_tracking else fallback))
     \<and> entries (cache this') (''stop_'' @ stopId)
         = Some \<lparr>val = services, expiresAt = clock W [4] + stdTTL (cache this) * 1000\<rparr>"
proof -
  from getBusTimesForStop_fresh [OF reg [folded stopsLookup_Own] miss] obtain tt ws where
    t: "fetchTimetableData (sub 1 W) (Some (datasets cfg)) = Inr (tt, ws)"
    and r: "getBusTimesForStop W this stopId =
       (let this1 = this\<lparr>cacheHit := False\<rparr>;
            vehicles = fst (getVehiclePositions (sub 2 W) this1);
            this2 = snd (getVehiclePositions (sub 2 W) this1);
            busServices = processBusServices (sub 3 W) cfg tt vehicles
        in (Inr busServices,
            this2\<lparr>cache := cache_set (clock W [4]) (cache this2) (''stop_'' @ stopId)
                               busServices None\<rparr>))"
    by blast
  have e: "tt = Map.empty" using fetchTimetableData_fails [OF fail t] .
  show ?thesis
    unfolding r Let_def e
    using processBusServices_empty registered_routes [OF reg]
    by (simp add: processBusServices_sorted cache_set_def)
qed


lemma ex_fails: "datasetFails exWorld ''15890''"
  by (simp add: datasetFails_def exWorld_def)

text \<open>
  C1. Stand P, with every dataset request answered by status 503 and a vehicle on line 17A:
  the fetch fails for the only dataset of the stop, and the call returns 8 services, the
  second of them tracked, and caches them for the default 300 seconds, where the pure
  fallback list is expected, at most 6 services, all with source \<open>fallback\<close>, cached
  for 60 seconds, which the \<open>catch\<close> of \<open>getBusTimesForStop\<close> would give.
\<close>

theorem fetch_failure_not_fallback:
  "map_of stops ''079073279B'' = Some exConfig
   \<and> datasets exConfig = [''15890'']
   \<and> fetchMetadata exWorld ''15890'' = Response 503 None
   \<and> fetchTimetableData (sub 1 exWorld) (Some [''15890''])
       = Inr (Map.empty, [FailedToFetchDataset ''15890'' (DatasetApiReturned 503)])
   \<and> getBusTimesForStop exWorld exState ''079073279B'' = (Inr exServices, exStateAfter)
   \<and> length exServices = 8
   \<and> source (exServices ! 1) = vehicle_tracking
   \<and> entries (cache exStateAfter) ''stop_079073279B''
       = Some \<lparr>val = exServices, expiresAt = 1700000000000 + 300 * 1000\<rparr>"
proof -
  have "getBusTimesForStop exWorld exState ''079073279B'' = (Inr exServices, exStateAfter)"
    using ex_result by (simp add: exStateAfter_def)
  moreover have "datasets exConfig = [''15890'']"
    by (simp add: exConfig_def)
  moreover have "fetchMetadata exWorld ''15890'' = Response 503 None"
    by (simp add: exWorld_def)
  moreover have "fetchTimetableData (sub 1 exWorld) (Some [''15890''])
       = Inr (Map.empty, [FailedToFetchDataset ''15890'' (DatasetApiReturned 503)])"
    by (rule ex_fetch) (simp add: sub_def exWorld_def)
  moreover have "length exServices = 8 \<and> source (exServices ! 1) = vehicle_tracking"
    by (simp add: exServices_def exTracked_def)
  moreover have "entries (cache exStateAfter) ''stop_079073279B''
       = Some \<lparr>val = exServices, expiresAt = 1700000000000 + 300 * 1000\<rparr>"
    by (simp add: exStateAfter_def)
  ultimately show ?thesis
    using ex_registered by simp
qed

subsection \<open>All stops, and the next bus\<close>

lemma assign_append: "k \<notin> fst ` set kvs \<Longrightarrow> assign k v kvs = kvs @ [(k, v)]"
  by (induction kvs) auto

lemma stopData_registered:
  assumes "map_of stops stopId = Some cfg"
  shows "\<exists>xs this'. stopData W this stopId = (Inr xs, this')
     \<and> getBusTimesForStop (sub 0 W) this stopId = (Inr xs, this')"
  using getBusTimesForStop_registered [OF assms, of "sub 0 W" this]
  by (auto simp: stopData_def)

lemma collectStops_registered:
  assumes "\<forall>stopId \<in> set ids. map_of stops stopId \<noteq> None"
    and "distinct ids" and "set ids \<inter> fst ` set allData = {}"
  shows "\<exists>allData' this'. collectStops Ws ids allData this = Inr (allData', this')
     \<and> map fst allData' = map fst allData @ ids"
  using assms
proof (induction ids arbitrary: allData this)
  case Nil
  then show ?case by simp
next
  case (Cons stopId ids)
  then obtain cfg where "map_of stops stopId = Some cfg" by auto
  from stopData_registered [OF this] obtain xs this' where
    s: "stopData (Ws stopId) this stopId = (Inr xs, this')" by blast
  from Cons.prems have a: "assign stopId xs allData = allData @ [(stopId, xs)]"
    by (intro assign_append) auto
  have "\<exists>allData' this''. collectStops Ws ids (allData @ [(stopId, xs)]) this' = Inr (allData', this'')
     \<and> map fst allData' = map fst (allData @ [(stopId, xs)]) @ ids"
    using Cons.prems by (intro Cons.IH) auto
  then show ?case by (simp add: s a)
qed

lemma find_append:
  "find P (xs @ ys) = (case find P xs of None \<Rightarrow> find P ys | Some a \<Rightarrow> Some a)"
  by (induction xs) auto

lemma earliest_exists: "xs \<noteq> [] \<Longrightarrow> \<exists>m \<in> set xs. earliest xs m"
  unfolding earliest_def
  by (metis arg_min_list_in f_arg_min_list_f List.finite_set Min_le finite_imageI imageI)

lemma fold_nextStep:
  "fold nextStep xs (None, None) =
     (case find (earliest xs) xs of
        None \<Rightarrow> (None, None)
      | Some m \<Rightarrow> (Some m, Some (serviceTime m)))"
proof (induction xs rule: rev_induct)
  case Nil
  then show ?case by simp
next
  case (snoc x xs)
  show ?case
  proof (cases "find (earliest xs) xs")
    case None
    then have "xs = []"
      using earliest_exists [of xs] by (auto simp: find_None_iff)
    then show ?thesis by (simp add: nextStep_def earliest_def)
  next
    case (Some m)
    then have m: "m \<in> set xs" "earliest xs m"
      by (auto simp: find_Some_iff)
    show ?thesis
    proof (cases "serviceTime x < serviceTime m")
      case True
      have "\<And>s. s \<in> set xs \<Longrightarrow> \<not> earliest (xs @ [x]) s"
        using True m by (fastforce simp: earliest_def)
      then have "find (earliest (xs @ [x])) xs = None"
        by (simp add: find_None_iff)
      moreover have "earliest (xs @ [x]) x"
        using True m by (fastforce simp: earliest_def)
      ultimately have "find (earliest (xs @ [x])) (xs @ [x]) = Some x"
        by (simp add: find_append)
      with True Some snoc.IH show ?thesis by (simp add: nextStep_def)
    next
      case False
      have "\<And>s. s \<in> set xs \<Longrightarrow> earliest (xs @ [x]) s = earliest xs s"
        using False m by (fastforce simp: earliest_def)
      then have "find (earliest (xs @ [x])) xs = find (earliest xs) xs"
        by (intro find_cong) auto
      with Some have "find (earliest (xs @ [x])) (xs @ [x]) = Some m"
        by (simp add: find_append)
      with False Some snoc.IH show ?thesis by (simp add: nextStep_def)
    qed
  qed
qed

lemma find_earliest_None: "find (earliest xs) xs = None \<longleftrightarrow> xs = []"
proof (cases "xs = []")
  case True
  then show ?thesis by simp
next
  case False
  with earliest_exists [OF False] show ?thesis by (auto simp: find_None_iff)
qed

lemma scanServices_find:
  "scanServices allData =
     find (earliest (concat (map snd allData))) (concat (map snd allData))"
  by (simp add: scanServices_def fold_nextStep split: option.split)

text \<open>
  C8. When the calls for the stops of the registry complete in the order \<open>completion\<close>
  (each stop once), \<open>getAllClevelandCentreData\<close> does not fail and holds the lists of the
  stops in that order, and \<open>getNextBusGlobally\<close> does not fail and returns the first
  service, in that order of the stops and in the order of each list, among those with
  the minimal \<open>estimatedTime || scheduledTime\<close> over all services of all stops; it returns
  null exactly when there is no service at all.
\<close>

theorem getNextBusGlobally_earliest:
  assumes "distinct completion" and "set completion = set (map fst stops)"
  shows "\<exists>allData this'.
     getAllClevelandCentreData Ws completion this = Inr (allData, this')
     \<and> map fst allData = completion
     \<and> getNextBusGlobally Ws completion this =
         Inr (find (earliest (concat (map snd allData))) (concat (map snd allData)), this')
     \<and> (find (earliest (concat (map snd allData))) (concat (map snd allData)) = None
          \<longleftrightarrow> concat (map snd allData) = [])"
proof -
  have "\<forall>stopId \<in> set completion. map_of stops stopId \<noteq> None"
    using assms(2) by (simp add: map_of_eq_None_iff)
  from collectStops_registered [OF this assms(1), of "[]" Ws this]
  obtain allData this' where
    c: "collectStops Ws completion [] this = Inr (allData, this')"
    and k: "map fst allData = completion" by auto
  from c k show ?thesis
    by (intro exI [of _ allData] exI [of _ this'])
       (simp only: getAllClevelandCentreData_def getNextBusGlobally_def scanServices_find
        find_earliest_None sum.case prod.case simp_thms)
qed


subsection \<open>All stops in the example world\<close>

lemma ex_lookup_A: "stopsLookup ''079073279A'' = Own exConfigA"
  by (simp add: stopsLookup_def stops_def exConfigA_def)

lemma ex_lookup_C: "stopsLookup ''079073279C'' = Own exConfigC"
  by (simp add: stopsLookup_def stops_def exConfigC_def)

lemma ex_fails_any: "datasetFails exWorld d"
  by (simp add: datasetFails_def exWorld_def)

lemma ex_sub: "sub k exWorld = exWorld"
  by (simp add: sub_def exWorld_def)

lemma ex_time_stagecoach [simp]: "serviceTime (exStagecoach r d t) = t"
  by (simp add: serviceTime_def exStagecoach_def exFallback_def)

lemma ex_routeServices:
  assumes "random W = (\<lambda>p. 1 / 2)" "clock W = (\<lambda>p. 1700000000000)"
    and "r \<notin> set objectPrototypeMembers" "estimateFrequency r = Plain f"
  shows "routeServices W cfg Map.empty r =
     map (\<lambda>i. \<lparr>routeNumber = r, destination = getDestinationForRoute r,
                 operator = firstOperator cfg,
                 scheduledTime = 1700000000000 + f * i * 60000,
                 estimatedTime = Some (1700000000000 + f * i * 60000),
                 status = onTime, source = fallback\<rparr>) [0, 1, 2, 3]"
  by (simp add: routeServices_def generateFallbackForRoute_def validServices_def
      fallbackService_def Let_def upt_0_4 determineStatus_def assms)

lemma ex_unmatched:
  "routeNumber s \<noteq> ''17A'' \<Longrightarrow> enhanceService W [exVehicle] s = s"
  by (simp add: enhanceService_def matches_def exVehicle_def)

lemma ex_process_A:
  "processBusServices (sub 3 exWorld) exConfigA Map.empty [exVehicle] = exServicesA"
proof -
  have r: "routes exConfigA = [''10'', ''12'', ''13'', ''14'']" by (simp add: exConfigA_def)
  have u: "[0..<4] = [0, 1, 2, 3::nat]" by code_simp
  have e: "enumerate0 [''10'', ''12'', ''13'', ''14'']
      = [(0, ''10''), (1, ''12''), (2, ''13''), (3, ''14'')]" by (simp add: u)
  have f: "estimateFrequency ''10'' = Plain 20" "estimateFrequency ''12'' = Plain 30"
    "estimateFrequency ''13'' = Plain 25" "estimateFrequency ''14'' = Plain 35"
    by (simp_all add: estimateFrequency_def frequencies_def)
  have m: "''10'' \<notin> set objectPrototypeMembers" "''12'' \<notin> set objectPrototypeMembers"
    "''13'' \<notin> set objectPrototypeMembers" "''14'' \<notin> set objectPrototypeMembers"
    by (simp_all add: objectPrototypeMembers_def)
  have d: "getDestinationForRoute ''10'' = Plain ''Lingfield Park''"
    "getDestinationForRoute ''12'' = Plain ''Coulby Newham''"
    "getDestinationForRoute ''13'' = Plain ''Coulby Newham''"
    "getDestinationForRoute ''14'' = Plain ''Trimdon Avenue''"
    by (simp_all add: getDestinationForRoute_def destinations_def)
  have o: "firstOperator exConfigA = Some ''Stagecoach''"
    by (simp add: firstOperator_def exConfigA_def)
  have s: "concat (map (\<lambda>(r, routeNumber').
              routeServices (sub r (sub 0 (sub 3 exWorld))) exConfigA Map.empty routeNumber')
              (enumerate0 (routes exConfigA))) =
     map (exStagecoach ''10'' ''Lingfield Park'')
       [1700000000000, 1700001200000, 1700002400000, 1700003600000] @
     map (exStagecoach ''12'' ''Coulby Newham'')
       [1700000000000, 1700001800000, 1700003600000, 1700005400000] @
     map (exStagecoach ''13'' ''Coulby Newham'')
       [1700000000000, 1700001500000, 1700003000000, 1700004500000] @
     map (exStagecoach ''14'' ''Trimdon Avenue'')
       [1700000000000, 1700002100000, 1700004200000, 1700006300000]"
    unfolding r e
    by (simp add: ex_routeServices [OF ex_still m(1) f(1)] ex_routeServices [OF ex_still m(2) f(2)]
        ex_routeServices [OF ex_still m(3) f(3)] ex_routeServices [OF ex_still m(4) f(4)]
        d o exStagecoach_def exFallback_def)
  have n: "\<And>r d t. r \<noteq> ''17A'' \<Longrightarrow> routeNumber (exStagecoach r d t) \<noteq> ''17A''"
    by (simp add: exStagecoach_def exFallback_def)
  have u16: "[0..<16] = [0, 1, 2, 3, 4, 5, 6, 7, 8, 9, 10, 11, 12, 13, 14, 15::nat]"
    by code_simp
  show ?thesis
    unfolding processBusServices_def Let_def s
    by (simp add: u16 enhanceWithVehicleData_def ex_unmatched n exServicesA_def)
qed

lemma ex_process_C:
  "processBusServices (sub 3 exWorld) exConfigC Map.empty [exVehicle] = exServicesC"
proof -
  have r: "routes exConfigC = [''29'', ''63'']" by (simp add: exConfigC_def)
  have u: "[0..<2] = [0, 1::nat]" by code_simp
  have e: "enumerate0 [''29'', ''63''] = [(0, ''29''), (1, ''63'')]" by (simp add: u)
  have f: "estimateFrequency ''29'' = Plain 40" "estimateFrequency ''63'' = Plain 45"
    by (simp_all add: estimateFrequency_def frequencies_def)
  have m: "''29'' \<notin> set objectPrototypeMembers" "''63'' \<notin> set objectPrototypeMembers"
    by (simp_all add: objectPrototypeMembers_def)
  have d: "getDestinationForRoute ''29'' = Plain ''Redcar''"
    "getDestinationForRoute ''63'' = Plain ''Redcar''"
    by (simp_all add: getDestinationForRoute_def destinations_def)
  have o: "firstOperator exConfigC = Some ''Arriva''"
    by (simp add: firstOperator_def exConfigC_def)
  have s: "concat (map (\<lambda>(r, routeNumber').
              routeServices (sub r (sub 0 (sub 3 exWorld))) exConfigC Map.empty routeNumber')
              (enumerate0 (routes exConfigC))) =
     map (exFallback ''29'' ''Redcar'')
       [1700000000000, 1700002400000, 1700004800000, 1700007200000] @
     map (exFallback ''63'' ''Redcar'')
       [1700000000000, 1700002700000, 1700005400000, 1700008100000]"
    unfolding r e
    by (simp add: ex_routeServices [OF ex_still m(1) f(1)] ex_routeServices [OF ex_still m(2) f(2)]
        d o exFallback_def)
  have n: "\<And>r d t. r \<noteq> ''17A'' \<Longrightarrow> routeNumber (exFallback r d t) \<noteq> ''17A''"
    by (simp add: exFallback_def)
  show ?thesis
    unfolding processBusServices_def Let_def s
    by (simp add: upt_0_8 enhanceWithVehicleData_def ex_unmatched n exServicesC_def)
qed

lemma ex_vehicles_cached:
  assumes "vehicleCache this = vehicleCache exStateAfter"
  shows "getVehiclePositions (sub 2 exWorld) this = ([exVehicle], this)"
  using assms
  by (simp add: getVehiclePositions_def cache_get_def exStateAfter_def exWorld_def)

lemma ex_result_other:
  assumes l: "stopsLookup stopId = Own cfg"
    and m: "entries (cache this) (''stop_'' @ stopId) = None"
    and v: "vehicleCache this = vehicleCache exStateAfter"
    and h: "cacheHit this = False"
    and p: "processBusServices (sub 3 exWorld) cfg Map.empty [exVehicle] = services"
  shows "getBusTimesForStop exWorld this stopId = (Inr services, exStored stopId services this)"
proof -
  have g: "cache_get (clock exWorld [0]) (cache this) (''stop_'' @ stopId) = None"
    using m by (simp add: cache_get_def)
  from getBusTimesForStop_fresh [OF l g] obtain tt ws where
    t: "fetchTimetableData (sub 1 exWorld) (Some (datasets cfg)) = Inr (tt, ws)"
    and r: "getBusTimesForStop exWorld this stopId =
       (let this1 = this\<lparr>cacheHit := False\<rparr>;
            vehicles = fst (getVehiclePositions (sub 2 exWorld) this1);
            this2 = snd (getVehiclePositions (sub 2 exWorld) this1);
            busServices = processBusServices (sub 3 exWorld) cfg tt vehicles
        in (Inr busServices,
            this2\<lparr>cache := cache_set (clock exWorld [4]) (cache this2) (''stop_'' @ stopId)
                               busServices None\<rparr>))"
    by blast
  have "tt = Map.empty"
    using fetchTimetableData_fails [OF _ t] ex_fails_any by simp
  moreover have "this\<lparr>cacheHit := False\<rparr> = this" using h by simp
  moreover have "clock exWorld [4] = 1700000000000" by (simp add: exWorld_def)
  ultimately show ?thesis
    using r by (simp add: ex_vehicles_cached [OF v] p Let_def exStored_def)
qed


lemma ex_all:
  "getAllClevelandCentreData (\<lambda>stopId. exWorld) [''079073279B'', ''079073279C'', ''079073279A'']
     exState = Inr (exAllData, exStateAll)"
proof -
  have b: "getBusTimesForStop exWorld exState ''079073279B'' = (Inr exServices, exStateAfter)"
    using ex_result by (simp add: exStateAfter_def)
  have c: "getBusTimesForStop exWorld exStateAfter ''079073279C''
      = (Inr exServicesC, exStored ''079073279C'' exServicesC exStateAfter)"
    by (rule ex_result_other [OF ex_lookup_C _ _ _ ex_process_C])
       (simp_all add: exStateAfter_def)
  have a: "getBusTimesForStop exWorld (exStored ''079073279C'' exServicesC exStateAfter) ''079073279A''
      = (Inr exServicesA, exStateAll)"
    unfolding exStateAll_def
    by (rule ex_result_other [OF ex_lookup_A _ _ _ ex_process_A])
       (simp_all add: exStateAfter_def exStored_def cache_set_def)
  show ?thesis
    by (simp add: getAllClevelandCentreData_def stopData_def ex_sub a b c exAllData_def)
qed

lemma ex_scan:
  "scanServices exAllData = Some (exFallback ''17B'' ''Stockton via Thornaby'' 1700000000000)"
  by (simp add: scanServices_def exAllData_def exServices_def exServicesA_def exServicesC_def
      nextStep_def)

theorem getNextBusGlobally_earliest_witness:
  "distinct [''079073279B'', ''079073279C'', ''079073279A'']
   \<and> set [''079073279B'', ''079073279C'', ''079073279A''] = set (map fst stops)
   \<and> getNextBusGlobally (\<lambda>stopId. exWorld)
        [''079073279B'', ''079073279C'', ''079073279A''] exState
       = Inr (find (earliest (concat (map snd exAllData))) (concat (map snd exAllData)),
              exStateAll)
   \<and> find (earliest (concat (map snd exAllData))) (concat (map snd exAllData)) \<noteq> None"
proof -
  have d: "distinct [''079073279B'', ''079073279C'', ''079073279A'']" by simp
  have s: "set [''079073279B'', ''079073279C'', ''079073279A''] = set (map fst stops)"
    by (auto simp: stops_def)
  have n: "concat (map snd exAllData) \<noteq> []"
    by (simp add: exAllData_def exServices_def)
  from getNextBusGlobally_earliest [OF d s, of "\<lambda>stopId. exWorld" exState] ex_all n
  have "getNextBusGlobally (\<lambda>stopId. exWorld)
        [''079073279B'', ''079073279C'', ''079073279A''] exState
       = Inr (find (earliest (concat (map snd exAllData))) (concat (map snd exAllData)),
              exStateAll)
   \<and> find (earliest (concat (map snd exAllData))) (concat (map snd exAllData)) \<noteq> None"
    by auto
  with d s show ?thesis by blast
qed

text \<open>The calls for stands P and Q complete before the call for stand O, and the earliest
  services of stands O and P are estimated at the same instant: the next bus is the
  service of stand P, not the service of stand O, which comes first in the order of the
  registry.\<close>

theorem getNextBusGlobally_tie_counterexample:
  "map fst stops = [''079073279A'', ''079073279B'', ''079073279C'']
   \<and> getAllClevelandCentreData (\<lambda>stopId. exWorld)
        [''079073279B'', ''079073279C'', ''079073279A''] exState = Inr (exAllData, exStateAll)
   \<and> getNextBusGlobally (\<lambda>stopId. exWorld)
        [''079073279B'', ''079073279C'', ''079073279A''] exState
       = Inr (Some (exFallback ''17B'' ''Stockton via Thornaby'' 1700000000000), exStateAll)
   \<and> scanServices [(''079073279A'', exServicesA), (''079073279B'', exServices),
         (''079073279C'', exServicesC)]
       = Some (exStagecoach ''10'' ''Lingfield Park'' 1700000000000)
   \<and> serviceTime (exStagecoach ''10'' ''Lingfield Park'' 1700000000000)
       = serviceTime (exFallback ''17B'' ''Stockton via Thornaby'' 1700000000000)
   \<and> exStagecoach ''10'' ''Lingfield Park'' 1700000000000
       \<noteq> exFallback ''17B'' ''Stockton via Thornaby'' 1700000000000"
proof -
  have "scanServices [(''079073279A'', exServicesA), (''079073279B'', exServices),
         (''079073279C'', exServicesC)]
       = Some (exStagecoach ''10'' ''Lingfield Park'' 1700000000000)"
    by (simp add: scanServices_def exServices_def exServicesA_def exServicesC_def nextStep_def)
  moreover have "exStagecoach ''10'' ''Lingfield Park'' 1700000000000
       \<noteq> exFallback ''17B'' ''Stockton via Thornaby'' 1700000000000"
    by (simp add: exStagecoach_def exFallback_def)
  moreover have "map fst stops = [''079073279A'', ''079073279B'', ''079073279C'']"
    by (simp add: stops_def)
  ultimately show ?thesis
    by (simp add: getNextBusGlobally_def ex_all ex_scan)
qed

subsection \<open>The status of the services returned\<close>

lemma set_assign: "set (assign k v kvs) \<subseteq> insert (k, v) (set kvs)"
  by (induction kvs) (auto split: if_splits)

lemma stopData_invariant:
  assumes c: "cached P this"
    and fresh: "\<And>W cfg tt vs. stopsLookup stopId = Own cfg \<Longrightarrow> timetableOk tt
                  \<Longrightarrow> P (processBusServices W cfg tt vs)"
    and fb: "\<And>W r. getFallbackDataForStop W stopId = Inr r \<Longrightarrow> P r"
    and res: "stopData W this stopId = (r, this')"
  shows "(case r of Inl e \<Rightarrow> True | Inr xs \<Rightarrow> P xs) \<and> cached P this'"
proof -
  obtain r0 this0 where g: "getBusTimesForStop (sub 0 W) this stopId = (r0, this0)"
    by (cases "getBusTimesForStop (sub 0 W) this stopId")
  have i: "(case r0 of Inl e \<Rightarrow> True | Inr xs \<Rightarrow> P xs) \<and> cached P this0"
    by (rule getBusTimesForStop_invariant [of P, OF c _ _ g]) (blast intro: fresh fb)+
  show ?thesis
  proof (cases r0)
    case (Inl e)
    with g res have "r = getFallbackDataForStop (sub 1 W) stopId" "this' = this0"
      by (simp_all add: stopData_def)
    with i fb show ?thesis by (auto split: sum.split)
  next
    case (Inr xs)
    with g res have "r = Inr xs" "this' = this0"
      by (simp_all add: stopData_def)
    with i Inr show ?thesis by simp
  qed
qed

lemma collectStops_invariant:
  assumes fresh: "\<And>W stopId cfg tt vs. stopsLookup stopId = Own cfg \<Longrightarrow> timetableOk tt
                  \<Longrightarrow> P (processBusServices W cfg tt vs)"
    and fb: "\<And>W stopId r. getFallbackDataForStop W stopId = Inr r \<Longrightarrow> P r"
  shows "cached P this \<Longrightarrow> list_all (\<lambda>(k, xs). P xs) allData \<Longrightarrow>
     collectStops Ws ids allData this = Inr (allData', this') \<Longrightarrow>
     list_all (\<lambda>(k, xs). P xs) allData' \<and> cached P this'"
proof (induction ids arbitrary: allData this)
  case Nil
  then show ?case by simp
next
  case (Cons stopId ids)
  obtain r this1 where s: "stopData (Ws stopId) this stopId = (r, this1)"
    by (cases "stopData (Ws stopId) this stopId")
  have i: "(case r of Inl e \<Rightarrow> True | Inr xs \<Rightarrow> P xs) \<and> cached P this1"
    by (rule stopData_invariant [of P, OF Cons.prems(1) _ _ s]) (blast intro: fresh fb)+
  show ?case
  proof (cases r)
    case (Inl e)
    with s Cons.prems(3) show ?thesis by simp
  next
    case (Inr xs)
    with i have "P xs" by simp
    with Cons.prems(2) have "list_all (\<lambda>(k, xs). P xs) (assign stopId xs allData)"
      using set_assign [of stopId xs allData] by (auto simp: list_all_iff)
    moreover from s Inr Cons.prems(3)
    have "collectStops Ws ids (assign stopId xs allData) this1 = Inr (allData', this')"
      by simp
    ultimately show ?thesis
      using i by (intro Cons.IH [of this1 "assign stopId xs allData"]) simp_all
  qed
qed

lemma scanServices_member:
  "scanServices allData = Some s \<Longrightarrow> s \<in> set (concat (map snd allData))"
  unfolding scanServices_find find_Some_iff by (metis nth_mem)

text \<open>
  C3. Every service returned by an operation of the class has a status that agrees with
  its times and its source: \<open>live\<close> when the source is \<open>vehicle_tracking\<close>, and otherwise
  the value of the classification rule at \<open>delta\<close>, the estimated time minus the scheduled
  time in minutes (\<open>onTime\<close> when \<open>|delta| < 2\<close>, \<open>delayed\<close> when \<open>delta > 5\<close>, \<open>early\<close>
  when \<open>delta < -3\<close>, \<open>estimated\<close> otherwise). This holds for the list of
  \<open>getBusTimesForStop\<close>, of \<open>getFallbackDataForStop\<close> and of
  \<open>generateFallbackForRoute\<close>, for every list of \<open>getAllClevelandCentreData\<close> and for
  the service of \<open>getNextBusGlobally\<close>. The services that \<open>generateFallbackForRoute\<close>
  returns with Invalid Dates have the status \<open>estimated\<close>, the value of the rule at a
  \<open>delta\<close> that is NaN. The lists held in the cache are lists returned earlier, so their
  services are assumed to have such a status, which holds for the empty cache and is kept
  by every call.
\<close>

theorem status_consistent:
  assumes c: "cached (list_all statusConsistent) this"
  shows "(case getBusTimesForStop W this stopId of
            (Inr services, this') \<Rightarrow>
              list_all statusConsistent services \<and> cached (list_all statusConsistent) this'
          | (Inl e, this') \<Rightarrow> cached (list_all statusConsistent) this')
     \<and> (case getFallbackDataForStop W stopId of
            Inr services \<Rightarrow> list_all statusConsistent services
          | Inl e \<Rightarrow> True)
     \<and> (case generateFallbackForRoute W r op of
            Services services \<Rightarrow> list_all statusConsistent services
          | InvalidDates services \<Rightarrow> list_all (\<lambda>s. i_status s = estimated) services)
     \<and> (case getAllClevelandCentreData Ws completion this of
            Inr (allData, this') \<Rightarrow>
              list_all (\<lambda>(k, services). list_all statusConsistent services) allData
              \<and> cached (list_all statusConsistent) this'
          | Inl e \<Rightarrow> True)
     \<and> (case getNextBusGlobally Ws completion this of
            Inr (Some s, this') \<Rightarrow> statusConsistent s
          | _ \<Rightarrow> True)"
proof -
  let ?P = "list_all statusConsistent"
  have fresh: "\<And>W stopId cfg tt vs. stopsLookup stopId = Own cfg \<Longrightarrow> timetableOk tt
      \<Longrightarrow> ?P (processBusServices W cfg tt vs)"
    by (rule processBusServices_consistent) (auto simp: stopsLookup_Own dest: registered_routes)
  have fb: "\<And>W stopId r. getFallbackDataForStop W stopId = Inr r \<Longrightarrow> ?P r"
    by (rule getFallbackDataForStop_consistent)
  obtain r1 this1 where g: "getBusTimesForStop W this stopId = (r1, this1)"
    by (cases "getBusTimesForStop W this stopId")
  have "(case r1 of Inl e \<Rightarrow> True | Inr xs \<Rightarrow> ?P xs) \<and> cached ?P this1"
    by (rule getBusTimesForStop_invariant [of ?P, OF c _ _ g]) (blast intro: fresh fb)+
  then have 1: "(case getBusTimesForStop W this stopId of
            (Inr services, this') \<Rightarrow> ?P services \<and> cached ?P this'
          | (Inl e, this') \<Rightarrow> cached ?P this')"
    unfolding g by (auto split: sum.splits)
  have 2: "(case getFallbackDataForStop W stopId of Inr services \<Rightarrow> ?P services | Inl e \<Rightarrow> True)"
    by (simp add: fb split: sum.split)
  have 3: "(case generateFallbackForRoute W r op of
            Services services \<Rightarrow> ?P services
          | InvalidDates services \<Rightarrow> list_all (\<lambda>s. i_status s = estimated) services)"
    by (rule generateFallbackForRoute_consistent)
  have a: "\<And>allData this'. getAllClevelandCentreData Ws completion this = Inr (allData, this')
      \<Longrightarrow> list_all (\<lambda>(k, services). ?P services) allData \<and> cached ?P this'"
    unfolding getAllClevelandCentreData_def
    by (rule collectStops_invariant [of ?P, OF _ _ c]) (simp_all add: fresh fb)
  then have 4: "(case getAllClevelandCentreData Ws completion this of
            Inr (allData, this') \<Rightarrow>
              list_all (\<lambda>(k, services). ?P services) allData \<and> cached ?P this'
          | Inl e \<Rightarrow> True)"
    by (simp split: sum.split prod.split)
  have 5: "(case getNextBusGlobally Ws completion this of
            Inr (Some s, this') \<Rightarrow> statusConsistent s
          | _ \<Rightarrow> True)"
  proof (cases "getAllClevelandCentreData Ws completion this")
    case (Inl e)
    then show ?thesis by (simp add: getNextBusGlobally_def)
  next
    case (Inr p)
    obtain allData this' where p: "p = (allData, this')" by (cases p)
    from a [OF Inr [unfolded p]] have l: "list_all (\<lambda>(k, services). ?P services) allData" ..
    have "\<And>s. scanServices allData = Some s \<Longrightarrow> statusConsistent s"
      using l by (fastforce simp: list_all_iff dest!: scanServices_member)
    with Inr p show ?thesis
      by (simp add: getNextBusGlobally_def split: option.split)
  qed
  from 1 2 3 4 5 show ?thesis by blast
qed


theorem status_consistent_witness:
  "cached (list_all statusConsistent) exState
   \<and> getBusTimesForStop exWorld exState ''079073279B'' = (Inr exServices, exStateAfter)
   \<and> list_all statusConsistent exServices
   \<and> cached (list_all statusConsistent) exStateAfter
   \<and> status (exServices ! 0) = classify 0 \<and> status (exServices ! 1) = live"
proof -
  have r: "getBusTimesForStop exWorld exState ''079073279B'' = (Inr exServices, exStateAfter)"
    using ex_result by (simp add: exStateAfter_def)
  from status_consistent [OF ex_cached, of exWorld "''079073279B''"]
  have l: "list_all statusConsistent exServices \<and> cached (list_all statusConsistent) exStateAfter"
    unfolding r by simp
  then have "statusConsistent (exServices ! 0)" "statusConsistent (exServices ! 1)"
    by (simp_all add: exServices_def)
  then have "status (exServices ! 0) = classify 0 \<and> status (exServices ! 1) = live"
    by (simp add: statusConsistent_def exServices_def exFallback_def exTracked_def)
  with ex_cached r l show ?thesis by simp
qed

end
